theory Spec2Isabelle
  imports Complex_Main "HOL-Library.Sublist" "HOL-Library.Char_ord" "HOL-Library.List_Lexorder"
begin

section \<open>JavaScript numbers\<close>

text \<open>
  The components compute with JavaScript numbers. Finite values are modelled as reals
  (rounding of the binary representation is not modelled); the three special values
  that a division can produce are kept, because several views divide without a guard.
  Zero is read as \<open>+0\<close>, which is what every denominator of the embedded code is
  when it vanishes (a count, a length, or \<open>max - min\<close> of equal values).
\<close>

datatype jsnum = Num real | PosInfinity | NegInfinity | NaN

fun js_div :: "jsnum \<Rightarrow> jsnum \<Rightarrow> jsnum" where
  "js_div NaN _ = NaN"
| "js_div _ NaN = NaN"
| "js_div (Num x) (Num y) =
     (if y = 0 then (if x = 0 then NaN else if 0 < x then PosInfinity else NegInfinity)
      else Num (x / y))"
| "js_div (Num x) PosInfinity = Num 0"
| "js_div (Num x) NegInfinity = Num 0"
| "js_div PosInfinity (Num y) = (if 0 \<le> y then PosInfinity else NegInfinity)"
| "js_div NegInfinity (Num y) = (if 0 \<le> y then NegInfinity else PosInfinity)"
| "js_div PosInfinity PosInfinity = NaN"
| "js_div PosInfinity NegInfinity = NaN"
| "js_div NegInfinity PosInfinity = NaN"
| "js_div NegInfinity NegInfinity = NaN"

fun js_mul :: "jsnum \<Rightarrow> jsnum \<Rightarrow> jsnum" where
  "js_mul NaN _ = NaN"
| "js_mul _ NaN = NaN"
| "js_mul (Num x) (Num y) = Num (x * y)"
| "js_mul (Num x) PosInfinity =
     (if x = 0 then NaN else if 0 < x then PosInfinity else NegInfinity)"
| "js_mul (Num x) NegInfinity =
     (if x = 0 then NaN else if 0 < x then NegInfinity else PosInfinity)"
| "js_mul PosInfinity (Num y) =
     (if y = 0 then NaN else if 0 < y then PosInfinity else NegInfinity)"
| "js_mul NegInfinity (Num y) =
     (if y = 0 then NaN else if 0 < y then NegInfinity else PosInfinity)"
| "js_mul PosInfinity PosInfinity = PosInfinity"
| "js_mul PosInfinity NegInfinity = NegInfinity"
| "js_mul NegInfinity PosInfinity = NegInfinity"
| "js_mul NegInfinity NegInfinity = PosInfinity"

fun js_sub :: "jsnum \<Rightarrow> jsnum \<Rightarrow> jsnum" where
  "js_sub NaN _ = NaN"
| "js_sub _ NaN = NaN"
| "js_sub (Num x) (Num y) = Num (x - y)"
| "js_sub (Num x) PosInfinity = NegInfinity"
| "js_sub (Num x) NegInfinity = PosInfinity"
| "js_sub PosInfinity (Num y) = PosInfinity"
| "js_sub NegInfinity (Num y) = NegInfinity"
| "js_sub PosInfinity PosInfinity = NaN"
| "js_sub PosInfinity NegInfinity = PosInfinity"
| "js_sub NegInfinity PosInfinity = NegInfinity"
| "js_sub NegInfinity NegInfinity = NaN"

text \<open>\<open>a < b\<close> on numbers: false as soon as one side is \<open>NaN\<close>.\<close>

fun js_lt :: "jsnum \<Rightarrow> jsnum \<Rightarrow> bool" where
  "js_lt NaN _ = False"
| "js_lt _ NaN = False"
| "js_lt (Num x) (Num y) = (x < y)"
| "js_lt (Num x) PosInfinity = True"
| "js_lt (Num x) NegInfinity = False"
| "js_lt PosInfinity _ = False"
| "js_lt NegInfinity NegInfinity = False"
| "js_lt NegInfinity _ = True"

text \<open>A number used as a condition: \<open>0\<close> is falsy, every other finite value truthy.\<close>

definition truthy :: "real \<Rightarrow> bool" where
  "truthy x = (x \<noteq> 0)"

section \<open>Race records\<close>

text \<open>
  The \<open>RaceRecord\<close> interface shared by the three components. The quoted property
  names \<open>'60ft'\<close>, \<open>'330ft'\<close>, \<open>'1/8ET'\<close> and \<open>'1/8MPH'\<close> are written
  \<open>ft60\<close>, \<open>ft330\<close>, \<open>ET8\<close> and \<open>MPH8\<close>. A value that was not recorded is \<open>0\<close>.
\<close>

record RaceRecord =
  Driver :: string
  CarNo :: string
  Date :: string
  RaceNumber :: int
  Reaction :: real
  ft60 :: real
  ft330 :: real
  ET8 :: real
  MPH8 :: real
  Opponent :: string
  OpponentCarNo :: string
  WinLoss :: string

section \<open>Objects and maps used as accumulators\<close>

text \<open>
  A \<open>reduce\<close> over the records fills a \<open>Map\<close> or a plain object keyed by a string.
  Both are association lists in insertion order. \<open>upsert k init f\<close> creates the entry
  of \<open>k\<close> when there is none and then updates it: for a \<open>Map\<close> this is
  \<open>if (!m.has(k)) m.set(k, init)\<close> followed by the update of \<open>m.get(k)\<close>, for every
  key; for a plain object it is \<open>if (!acc[k]) acc[k] = init\<close> followed by the update of
  \<open>acc[k]\<close>, for a key that is not the name of an inherited property (see below).
\<close>

type_synonym 'v jsobject = "(string \<times> 'v) list"

definition has_key :: "string \<Rightarrow> 'v jsobject \<Rightarrow> bool" where
  "has_key k acc = (k \<in> set (map fst acc))"

definition upsert :: "string \<Rightarrow> 'v \<Rightarrow> ('v \<Rightarrow> 'v) \<Rightarrow> 'v jsobject \<Rightarrow> 'v jsobject" where
  "upsert k init f acc =
     (if has_key k acc then map (\<lambda>(k', v). if k' = k then (k', f v) else (k', v)) acc
      else acc @ [(k, f init)])"

text \<open>
  \<open>Object.values\<close> lists the properties whose key is an array index (a canonical
  decimal numeral below \<open>2^32 - 1\<close>) first, in ascending numeric order, and then the
  other string keys in insertion order. A \<open>Map\<close> lists all entries in insertion order.
\<close>

definition digit_chars :: string where
  "digit_chars = ''0123456789''"

definition digits_value :: "string \<Rightarrow> int" where
  "digits_value s = foldl (\<lambda>n c. 10 * n + (of_char c - 48)) 0 s"

definition array_index :: "string \<Rightarrow> int option" where
  "array_index s =
     (if s = [] then None
      else if list_ex (\<lambda>c. c \<notin> set digit_chars) s then None
      else if hd s = CHR ''0'' \<and> length s > 1 then None
      else if digits_value s < 4294967295 then Some (digits_value s) else None)"

definition index_key :: "string \<times> 'v \<Rightarrow> int" where
  "index_key kv = (case array_index (fst kv) of Some n \<Rightarrow> n | None \<Rightarrow> 0)"

definition object_entries :: "'v jsobject \<Rightarrow> (string \<times> 'v) list" where
  "object_entries acc =
     sort_key index_key (filter (\<lambda>kv. array_index (fst kv) \<noteq> None) acc)
     @ filter (\<lambda>kv. array_index (fst kv) = None) acc"

definition object_values :: "'v jsobject \<Rightarrow> 'v list" where
  "object_values acc = map snd (object_entries acc)"

text \<open>
  A plain object \<open>{}\<close> inherits the properties of \<open>Object.prototype\<close>. For a key
  \<open>k\<close> that names one of them, \<open>acc[k]\<close> is a function (or the prototype itself) and
  so is truthy: \<open>if (!acc[k])\<close> creates no entry, and what follows works on the
  inherited value. An update that only assigns a number to a property of it
  (\<open>acc[k].wins += 1\<close>) lands there and leaves the accumulator as it is; an update that
  calls \<open>push\<close> on a property of it (\<open>acc[k].etTimes.push(v)\<close>) finds the property
  undefined and throws a \<open>TypeError\<close>.
\<close>

datatype error = TypeError

definition inherited_names :: "string list" where
  "inherited_names =
     [''constructor'', ''__defineGetter__'', ''__defineSetter__'', ''hasOwnProperty'',
      ''__lookupGetter__'', ''__lookupSetter__'', ''isPrototypeOf'', ''propertyIsEnumerable'',
      ''toString'', ''valueOf'', ''__proto__'', ''toLocaleString'']"

definition inherited :: "string \<Rightarrow> bool" where
  "inherited k = (k \<in> set inherited_names)"

definition obj_update :: "string \<Rightarrow> 'v \<Rightarrow> ('v \<Rightarrow> 'v) \<Rightarrow> 'v jsobject \<Rightarrow> 'v jsobject" where
  "obj_update k init f acc = (if inherited k then acc else upsert k init f acc)"

definition obj_push :: "string \<Rightarrow> 'v \<Rightarrow> ('v \<Rightarrow> 'v) \<Rightarrow> 'v jsobject \<Rightarrow> error + 'v jsobject" where
  "obj_push k init f acc = (if inherited k then Inl TypeError else Inr (upsert k init f acc))"

text \<open>A \<open>reduce\<close> (or \<open>forEach\<close>) whose callback may throw: the exception ends it.\<close>

fun reduce_throwing :: "('a \<Rightarrow> 'r \<Rightarrow> error + 'a) \<Rightarrow> 'a \<Rightarrow> 'r list \<Rightarrow> error + 'a" where
  "reduce_throwing f acc [] = Inr acc"
| "reduce_throwing f acc (r # rs) =
     (case f acc r of Inl e \<Rightarrow> Inl e | Inr acc' \<Rightarrow> reduce_throwing f acc' rs)"

section \<open>Win-factor analysis (statistics view)\<close>

fun dec_digits :: "nat \<Rightarrow> string" where
  "dec_digits n =
     (if n < 10 then [char_of (48 + n)]
      else dec_digits (n div 10) @ [char_of (48 + n mod 10)])"

declare dec_digits.simps [simp del]

text \<open>The text of an integer inside a template literal.\<close>

definition num_to_string :: "int \<Rightarrow> string" where
  "num_to_string i = (if i < 0 then CHR ''-'' # dec_digits (nat (- i)) else dec_digits (nat i))"

record win_analysis =
  betterReaction :: nat
  better60ft :: nat
  better330 :: nat
  betterMPH :: nat
  totalComparisons :: nat

definition winAnalysis0 :: win_analysis where
  "winAnalysis0 = \<lparr>betterReaction = 0, better60ft = 0, better330 = 0, betterMPH = 0,
                   totalComparisons = 0\<rparr>"

definition group_key :: "RaceRecord \<Rightarrow> string" where
  "group_key race = Date race @ ''-'' @ num_to_string (RaceNumber race)"

text \<open>
  The groups are kept in a plain object. Its keys contain a hyphen, which no inherited
  property name does, so every key gets its own entry.
\<close>

definition raceGroups :: "RaceRecord list \<Rightarrow> RaceRecord list jsobject" where
  "raceGroups data = foldl (\<lambda>acc race. upsert (group_key race) [] (\<lambda>g. g @ [race]) acc) [] data"

definition bump :: "bool \<Rightarrow> nat \<Rightarrow> nat" where
  "bump c n = (if c then n + 1 else n)"

definition compare_group :: "win_analysis \<Rightarrow> RaceRecord list \<Rightarrow> win_analysis" where
  "compare_group wa grp =
     (if length grp \<noteq> 2 then wa
      else case find (\<lambda>r. WinLoss r = ''Win'') grp of
        None \<Rightarrow> wa
      | Some winner \<Rightarrow>
         (case find (\<lambda>r. WinLoss r = ''Loss'') grp of
            None \<Rightarrow> wa
          | Some loser \<Rightarrow>
              \<lparr>betterReaction = bump (truthy (Reaction winner) \<and> truthy (Reaction loser)
                                      \<and> Reaction winner < Reaction loser) (betterReaction wa),
               better60ft = bump (truthy (ft60 winner) \<and> truthy (ft60 loser)
                                  \<and> ft60 winner < ft60 loser) (better60ft wa),
               better330 = bump (truthy (ft330 winner) \<and> truthy (ft330 loser)
                                 \<and> ft330 winner < ft330 loser) (better330 wa),
               betterMPH = bump (truthy (MPH8 winner) \<and> truthy (MPH8 loser)
                                 \<and> MPH8 winner > MPH8 loser) (betterMPH wa),
               totalComparisons = totalComparisons wa + 1\<rparr>))"

definition winAnalysis :: "RaceRecord list \<Rightarrow> win_analysis" where
  "winAnalysis data = foldl compare_group winAnalysis0 (object_values (raceGroups data))"

definition percentage :: "nat \<Rightarrow> nat \<Rightarrow> jsnum" where
  "percentage n cnt = js_mul (js_div (Num (real n)) (Num (real cnt))) (Num 100)"

definition winFactorsData :: "RaceRecord list \<Rightarrow> (string \<times> jsnum) list" where
  "winFactorsData data =
     (let wa = winAnalysis data in
      [(''Better Reaction'', percentage (betterReaction wa) (totalComparisons wa)),
       (''Better 60ft'', percentage (better60ft wa) (totalComparisons wa)),
       (''Better 330ft'', percentage (better330 wa) (totalComparisons wa)),
       (''Higher MPH'', percentage (betterMPH wa) (totalComparisons wa))])"

section \<open>Array helpers\<close>

text \<open>
  \<open>Array.prototype.sort\<close> with a comparator is stable (ECMAScript 2019). Every
  comparator of the code is a difference of two finite keys, so the sorted array is the
  unique stable arrangement; it is computed here by inserting from the right, an element
  going in front of the first one it does not exceed.
\<close>

fun js_insert :: "('a \<Rightarrow> 'a \<Rightarrow> real) \<Rightarrow> 'a \<Rightarrow> 'a list \<Rightarrow> 'a list" where
  "js_insert cmp x [] = [x]"
| "js_insert cmp x (y # ys) = (if cmp x y \<le> 0 then x # y # ys else y # js_insert cmp x ys)"

definition js_sort :: "('a \<Rightarrow> 'a \<Rightarrow> real) \<Rightarrow> 'a list \<Rightarrow> 'a list" where
  "js_sort cmp xs = foldr (js_insert cmp) xs []"

text \<open>
  The distinct elements of a list in the order of their first appearance: the keys of an
  accumulator, and \<open>Array.from(new Set(xs))\<close>.
\<close>

definition first_seen :: "'a list \<Rightarrow> 'a list" where
  "first_seen xs = rev (remdups (rev xs))"

text \<open>\<open>values.reduce((sum, val) => sum + val, 0)\<close>\<close>

definition reduce_sum :: "real list \<Rightarrow> real" where
  "reduce_sum xs = foldl (\<lambda>sum v. sum + v) 0 xs"

text \<open>\<open>xs.slice(-2)\<close>\<close>

definition last_two :: "'a list \<Rightarrow> 'a list" where
  "last_two xs = drop (length xs - 2) xs"

text \<open>
  \<open>Math.round(x)\<close>, and \<open>parseFloat(x.toFixed(d))\<close>: the nearest multiple of
  \<open>10^-d\<close>, a tie going to the larger magnitude.
\<close>

definition math_round :: "real \<Rightarrow> real" where
  "math_round x = of_int \<lfloor>x + 1 / 2\<rfloor>"

definition to_fixed :: "nat \<Rightarrow> real \<Rightarrow> real" where
  "to_fixed d x =
     (if x < 0 then - (of_int \<lfloor>- x * 10 ^ d + 1 / 2\<rfloor> / 10 ^ d)
      else of_int \<lfloor>x * 10 ^ d + 1 / 2\<rfloor> / 10 ^ d)"

text \<open>\<open>s.split(' ')\<close>\<close>

fun split_space :: "string \<Rightarrow> string list" where
  "split_space [] = [[]]"
| "split_space (c # cs) =
     (if c = CHR '' '' then [] # split_space cs
      else case split_space cs of [] \<Rightarrow> [[c]] | w # ws \<Rightarrow> (c # w) # ws)"

text \<open>
  \<open>const [first, last] = driver.split(' ');
  const displayName = last ? `${first} ${last[0]}<tail>` : first;\<close>
  where the tail is \<open>". "\<close> or \<open>"."\<close> depending on the view; \<open>w1\<close> and \<open>w2\<close>
  stand for \<open>first\<close> and \<open>last\<close>.
\<close>

definition displayName :: "string \<Rightarrow> string \<Rightarrow> string" where
  "displayName tail d =
     (case split_space d of
        [] \<Rightarrow> []
      | [w1] \<Rightarrow> w1
      | w1 # w2 # _ \<Rightarrow>
          (case w2 of [] \<Rightarrow> w1 | c # _ \<Rightarrow> w1 @ '' '' @ [c] @ tail))"

text \<open>A numeric field counts when \<open>race[f] && race[f] > 0\<close>.\<close>

definition present :: "real \<Rightarrow> bool" where
  "present x = (truthy x \<and> 0 < x)"

section \<open>Statistics view: leaderboards\<close>

text \<open>
  \<open>LeaderboardEntry\<close>, with the optional properties \<open>date\<close> and \<open>opponent\<close> and the
  two extra properties some rankings attach (\<open>races\<close>, here \<open>nraces\<close>, and
  \<open>improvementPct\<close>). The property \<open>value\<close> is written \<open>val\<close>.
\<close>

record LeaderboardEntry =
  driver :: string
  carNo :: string
  val :: real
  date :: "string option"
  opponent :: "string option"
  nraces :: "nat option"
  improvementPct :: "real option"

definition record_entry :: "(RaceRecord \<Rightarrow> real) \<Rightarrow> RaceRecord \<Rightarrow> LeaderboardEntry" where
  "record_entry f race =
     \<lparr>driver = Driver race, carNo = CarNo race, val = f race, date = Some (Date race),
      opponent = Some (Opponent race), nraces = None, improvementPct = None\<rparr>"

definition etLeaders :: "RaceRecord list \<Rightarrow> LeaderboardEntry list" where
  "etLeaders data =
     map (record_entry ET8)
       (take 10 (js_sort (\<lambda>a b. ET8 a - ET8 b) (filter (\<lambda>race. present (ET8 race)) data)))"

definition speedLeaders :: "RaceRecord list \<Rightarrow> LeaderboardEntry list" where
  "speedLeaders data =
     map (record_entry MPH8)
       (take 10 (js_sort (\<lambda>a b. MPH8 b - MPH8 a) (filter (\<lambda>race. present (MPH8 race)) data)))"

definition reactionLeaders :: "RaceRecord list \<Rightarrow> LeaderboardEntry list" where
  "reactionLeaders data =
     map (record_entry Reaction)
       (take 10 (js_sort (\<lambda>a b. Reaction a - Reaction b)
          (filter (\<lambda>race. truthy (Reaction race) \<and> Reaction race > 0.001) data)))"

definition sixtyFootLeaders :: "RaceRecord list \<Rightarrow> LeaderboardEntry list" where
  "sixtyFootLeaders data =
     map (record_entry ft60)
       (take 10 (js_sort (\<lambda>a b. ft60 a - ft60 b) (filter (\<lambda>race. present (ft60 race)) data)))"

text \<open>Most wins: \<open>{driver, carNo, wins}\<close> per driver, created at the driver's first win.\<close>

record driver_wins =
  dw_driver :: string
  dw_carNo :: string
  dw_wins :: nat

definition winsByDriver :: "RaceRecord list \<Rightarrow> driver_wins jsobject" where
  "winsByDriver data =
     foldl (\<lambda>acc race.
        if WinLoss race = ''Win''
        then obj_update (Driver race)
               \<lparr>dw_driver = Driver race, dw_carNo = CarNo race, dw_wins = 0\<rparr>
               (\<lambda>e. e\<lparr>dw_wins := dw_wins e + 1\<rparr>) acc
        else acc) [] data"

definition wins_entry :: "driver_wins \<Rightarrow> LeaderboardEntry" where
  "wins_entry e =
     \<lparr>driver = dw_driver e, carNo = dw_carNo e, val = real (dw_wins e), date = None,
      opponent = None, nraces = None, improvementPct = None\<rparr>"

definition winsLeaderboard :: "RaceRecord list \<Rightarrow> LeaderboardEntry list" where
  "winsLeaderboard data =
     map wins_entry
       (take 10 (js_sort (\<lambda>a b. real (dw_wins b) - real (dw_wins a))
          (object_values (winsByDriver data))))"

text \<open>Best win rate (minimum 3 races): \<open>{driver, carNo, wins, races}\<close> per driver.\<close>

record driver_tally =
  dt_driver :: string
  dt_carNo :: string
  dt_wins :: nat
  dt_races :: nat

definition stats_driverStats :: "RaceRecord list \<Rightarrow> driver_tally jsobject" where
  "stats_driverStats data =
     foldl (\<lambda>acc race.
        obj_update (Driver race)
          \<lparr>dt_driver = Driver race, dt_carNo = CarNo race, dt_wins = 0, dt_races = 0\<rparr>
          (\<lambda>e. e\<lparr>dt_races := dt_races e + 1,
                  dt_wins := (if WinLoss race = ''Win'' then dt_wins e + 1 else dt_wins e)\<rparr>)
          acc) [] data"

definition winRate_entry :: "driver_tally \<Rightarrow> LeaderboardEntry" where
  "winRate_entry stats =
     \<lparr>driver = dt_driver stats, carNo = dt_carNo stats,
      val = (real (dt_wins stats) / real (dt_races stats)) * 100, date = None, opponent = None,
      nraces = Some (dt_races stats), improvementPct = None\<rparr>"

definition winRateLeaderboard :: "RaceRecord list \<Rightarrow> LeaderboardEntry list" where
  "winRateLeaderboard data =
     take 10 (js_sort (\<lambda>a b. val b - val a)
       (map winRate_entry
          (filter (\<lambda>stats. dt_races stats \<ge> 3) (object_values (stats_driverStats data)))))"

text \<open>Consistency ranking: standard deviation of each driver's recorded ETs.\<close>

record driver_et =
  de_driver :: string
  de_carNo :: string
  etTimes :: "real list"

definition driverETStats :: "RaceRecord list \<Rightarrow> error + driver_et jsobject" where
  "driverETStats data =
     reduce_throwing (\<lambda>acc race.
        obj_push (Driver race) \<lparr>de_driver = Driver race, de_carNo = CarNo race, etTimes = []\<rparr>
          (\<lambda>e. e\<lparr>etTimes := etTimes e @ [ET8 race]\<rparr>) acc)
       [] (filter (\<lambda>race. present (ET8 race)) data)"

definition consistency_entry :: "driver_et \<Rightarrow> LeaderboardEntry" where
  "consistency_entry stats =
     (let mean = reduce_sum (etTimes stats) / real (length (etTimes stats));
          variance = foldl (\<lambda>sum v. sum + (v - mean) ^ 2) 0 (etTimes stats)
                       / real (length (etTimes stats));
          stdDev = sqrt variance
      in \<lparr>driver = de_driver stats, carNo = de_carNo stats, val = stdDev, date = None,
          opponent = None, nraces = Some (length (etTimes stats)), improvementPct = None\<rparr>)"

definition consistencyLeaderboard :: "RaceRecord list \<Rightarrow> error + LeaderboardEntry list" where
  "consistencyLeaderboard data =
     (case driverETStats data of
        Inl e \<Rightarrow> Inl e
      | Inr acc \<Rightarrow>
          Inr (take 6 (js_sort (\<lambda>a b. val a - val b)
            (map consistency_entry
               (filter (\<lambda>stats. length (etTimes stats) \<ge> 3) (object_values acc))))))"

section \<open>Statistics view: performance by race number\<close>

record perf_acc =
  raceNumber :: int
  totalET :: real
  totalReaction :: real
  totalMPH :: real
  count :: nat

text \<open>A point of the chart: \<open>{raceNumber, avgET, avgReaction, avgMPH, count}\<close>.\<close>

record time_perf =
  tp_raceNumber :: int
  tp_avgET :: real
  tp_avgReaction :: real
  tp_avgMPH :: real
  tp_count :: nat

definition perf_step :: "RaceRecord \<Rightarrow> perf_acc \<Rightarrow> perf_acc" where
  "perf_step race e =
     (let e1 = (if present (ET8 race)
                then e\<lparr>totalET := totalET e + ET8 race, count := count e + 1\<rparr> else e);
          e2 = (if present (Reaction race)
                then e1\<lparr>totalReaction := totalReaction e1 + Reaction race\<rparr> else e1)
      in (if present (MPH8 race) then e2\<lparr>totalMPH := totalMPH e2 + MPH8 race\<rparr> else e2))"

text \<open>
  The object is indexed by the number \<open>Math.min(10, race.RaceNumber || 0)\<close>; its property
  key is the text of that number, and race numbers are integers. Such a text consists of
  digits and a sign, so it never names an inherited property.
\<close>

definition performanceByRaceNumber :: "RaceRecord list \<Rightarrow> perf_acc jsobject" where
  "performanceByRaceNumber data =
     foldl (\<lambda>acc race.
        let n = min 10 (if RaceNumber race \<noteq> 0 then RaceNumber race else 0)
        in upsert (num_to_string n)
             \<lparr>raceNumber = n, totalET = 0, totalReaction = 0, totalMPH = 0, count = 0\<rparr>
             (perf_step race) acc) [] data"

definition timePerformanceData :: "RaceRecord list \<Rightarrow> time_perf list" where
  "timePerformanceData data =
     js_sort (\<lambda>a b. real_of_int (tp_raceNumber a) - real_of_int (tp_raceNumber b))
       (map (\<lambda>item. \<lparr>tp_raceNumber = raceNumber item,
                      tp_avgET = totalET item / real (count item),
                      tp_avgReaction = totalReaction item / real (count item),
                      tp_avgMPH = totalMPH item / real (count item),
                      tp_count = count item\<rparr>)
          (filter (\<lambda>item. count item > 0) (object_values (performanceByRaceNumber data))))"

section \<open>Statistics view: improvement rankings\<close>

text \<open>
  A run is \<open>{date, et}\<close> (or \<open>{date, mph}\<close>): a pair. \<open>new Date(s).getTime()\<close> is a
  function of the runtime; it is the parameter \<open>tm\<close>, taken to give a finite time for
  every date of the data.
\<close>

record driver_runs =
  dr_driver :: string
  dr_carNo :: string
  runs :: "(string \<times> real) list"

definition progress_of ::
    "(RaceRecord \<Rightarrow> real) \<Rightarrow> RaceRecord list \<Rightarrow> error + driver_runs jsobject" where
  "progress_of f data =
     reduce_throwing (\<lambda>acc race.
        if \<not> truthy (f race) \<or> f race \<le> 0 then Inr acc
        else obj_push (Driver race) \<lparr>dr_driver = Driver race, dr_carNo = CarNo race, runs = []\<rparr>
               (\<lambda>e. e\<lparr>runs := runs e @ [(Date race, f race)]\<rparr>) acc) [] data"

definition driverProgress :: "RaceRecord list \<Rightarrow> error + driver_runs jsobject" where
  "driverProgress data = progress_of ET8 data"

definition driverMphProgress :: "RaceRecord list \<Rightarrow> error + driver_runs jsobject" where
  "driverMphProgress data = progress_of MPH8 data"

definition sortedRuns :: "(string \<Rightarrow> real) \<Rightarrow> (string \<times> real) list \<Rightarrow> (string \<times> real) list" where
  "sortedRuns tm rs = js_sort (\<lambda>a b. tm (fst a) - tm (fst b)) rs"

definition earlyAvg :: "(string \<Rightarrow> real) \<Rightarrow> (string \<times> real) list \<Rightarrow> real" where
  "earlyAvg tm rs =
     (let firstRuns = take 2 (sortedRuns tm rs)
      in foldl (\<lambda>sum run. sum + snd run) 0 firstRuns / real (length firstRuns))"

definition lateAvg :: "(string \<Rightarrow> real) \<Rightarrow> (string \<times> real) list \<Rightarrow> real" where
  "lateAvg tm rs =
     (let lastRuns = last_two (sortedRuns tm rs)
      in foldl (\<lambda>sum run. sum + snd run) 0 lastRuns / real (length lastRuns))"

definition improvement_entry :: "(string \<Rightarrow> real) \<Rightarrow> driver_runs \<Rightarrow> LeaderboardEntry" where
  "improvement_entry tm d =
     \<lparr>driver = displayName ''. '' (dr_driver d), carNo = dr_carNo d,
      val = lateAvg tm (runs d) - earlyAvg tm (runs d), date = None, opponent = None,
      nraces = None,
      improvementPct =
        Some (((earlyAvg tm (runs d) - lateAvg tm (runs d)) / earlyAvg tm (runs d)) * 100)\<rparr>"

definition improvementData ::
    "(string \<Rightarrow> real) \<Rightarrow> RaceRecord list \<Rightarrow> error + LeaderboardEntry list" where
  "improvementData tm data =
     (case driverProgress data of
        Inl e \<Rightarrow> Inl e
      | Inr acc \<Rightarrow>
          Inr (take 10 (js_sort (\<lambda>a b. val a - val b)
            (map (improvement_entry tm)
               (filter (\<lambda>d. length (runs d) \<ge> 4) (object_values acc))))))"

definition mph_improvement_entry :: "(string \<Rightarrow> real) \<Rightarrow> driver_runs \<Rightarrow> LeaderboardEntry" where
  "mph_improvement_entry tm d =
     \<lparr>driver = displayName ''. '' (dr_driver d), carNo = dr_carNo d,
      val = lateAvg tm (runs d) - earlyAvg tm (runs d), date = None, opponent = None,
      nraces = None,
      improvementPct =
        Some (((lateAvg tm (runs d) - earlyAvg tm (runs d)) / earlyAvg tm (runs d)) * 100)\<rparr>"

definition mphImprovementData ::
    "(string \<Rightarrow> real) \<Rightarrow> RaceRecord list \<Rightarrow> error + LeaderboardEntry list" where
  "mphImprovementData tm data =
     (case driverMphProgress data of
        Inl e \<Rightarrow> Inl e
      | Inr acc \<Rightarrow>
          Inr (take 10 (js_sort (\<lambda>a b. val b - val a)
            (map (mph_improvement_entry tm)
               (filter (\<lambda>d. length (runs d) \<ge> 4) (object_values acc))))))"

section \<open>Statistics view: the other statistics and \<open>processStatistics\<close>\<close>

text \<open>Races per date, \<open>{date, count}\<close> as a pair, and the two correlation sets.\<close>

definition stats_racesByDate :: "RaceRecord list \<Rightarrow> (string \<times> nat) jsobject" where
  "stats_racesByDate data =
     foldl (\<lambda>acc race. obj_update (Date race) (Date race, 0) (\<lambda>(d, c). (d, c + 1)) acc) [] data"

definition raceCountData :: "(string \<Rightarrow> real) \<Rightarrow> RaceRecord list \<Rightarrow> (string \<times> nat) list" where
  "raceCountData tm data =
     js_sort (\<lambda>a b. tm (fst a) - tm (fst b)) (object_values (stats_racesByDate data))"

record RelationshipData =
  rel_x :: real
  rel_y :: real
  rel_z :: real
  rel_driver :: string

definition relationship :: "(RaceRecord \<Rightarrow> real) \<Rightarrow> RaceRecord list \<Rightarrow> RelationshipData list" where
  "relationship f data =
     map (\<lambda>race. \<lparr>rel_x = f race, rel_y = ET8 race,
                   rel_z = (if truthy (MPH8 race) then MPH8 race else 100),
                   rel_driver = Driver race\<rparr>)
       (filter (\<lambda>race. present (f race) \<and> present (ET8 race)) data)"

definition reactionETData :: "RaceRecord list \<Rightarrow> RelationshipData list" where
  "reactionETData data = relationship Reaction data"

definition sixtyETData :: "RaceRecord list \<Rightarrow> RelationshipData list" where
  "sixtyETData data = relationship ft60 data"

text \<open>
  The heat map. For each date, in the default (string) order of the dates, the ETs of the
  day go into ten bins numbered 1 to 10, by \<open>Math.min(10, race.RaceNumber || 1)\<close>;
  \<open>bins[hour].push\<close> throws when there is no such bin. Each bin that is not empty gives a
  point \<open>{day, hour, value}\<close> with the average of its ETs.
\<close>

record heat_point =
  hm_day :: string
  hm_hour :: int
  hm_value :: real

definition uniqueDates :: "RaceRecord list \<Rightarrow> string list" where
  "uniqueDates data = sort (first_seen (map Date data))"

definition empty_bins :: "(int \<times> real list) list" where
  "empty_bins = map (\<lambda>i. (i, [])) [1..10]"

definition bin_push :: "int \<Rightarrow> real \<Rightarrow> (int \<times> real list) list \<Rightarrow> error + (int \<times> real list) list" where
  "bin_push hour v bins =
     (if hour \<in> set (map fst bins)
      then Inr (map (\<lambda>(h, ts). if h = hour then (h, ts @ [v]) else (h, ts)) bins)
      else Inl TypeError)"

definition heatMap_hour :: "RaceRecord \<Rightarrow> int" where
  "heatMap_hour race = min 10 (if RaceNumber race \<noteq> 0 then RaceNumber race else 1)"

definition day_bins :: "RaceRecord list \<Rightarrow> error + (int \<times> real list) list" where
  "day_bins dayRaces =
     reduce_throwing (\<lambda>bins race.
        if present (ET8 race) then bin_push (heatMap_hour race) (ET8 race) bins else Inr bins)
       empty_bins dayRaces"

definition day_points :: "string \<Rightarrow> (int \<times> real list) list \<Rightarrow> heat_point list" where
  "day_points day bins =
     map (\<lambda>(h, ts). \<lparr>hm_day = day, hm_hour = h, hm_value = reduce_sum ts / real (length ts)\<rparr>)
       (filter (\<lambda>(h, ts). length ts > 0) bins)"

definition heatMapData :: "RaceRecord list \<Rightarrow> error + heat_point list" where
  "heatMapData data =
     reduce_throwing (\<lambda>points day.
        case day_bins (filter (\<lambda>r. Date r = day) data) of
          Inl e \<Rightarrow> Inl e
        | Inr bins \<Rightarrow> Inr (points @ day_points day bins))
       [] (uniqueDates data)"

text \<open>
  \<open>processStatistics\<close> computes the statistics in the order of the record below and
  hands each to its state setter. It is called between \<open>setLoading(true)\<close> and
  \<open>setLoading(false)\<close>, inside a \<open>try\<close> whose handler sets the error message: when a
  step throws, the view renders the loading screen or the error message and none of the
  statistics, so it shows the statistics only when no step has thrown. The steps that can
  throw are, in this order, the ET lists of the consistency ranking, the heat map and the
  two collections of runs of the improvement rankings.
\<close>

record statistics =
  st_bestET :: "LeaderboardEntry list"
  st_topSpeed :: "LeaderboardEntry list"
  st_bestReaction :: "LeaderboardEntry list"
  st_best60ft :: "LeaderboardEntry list"
  st_mostWins :: "LeaderboardEntry list"
  st_bestWinRate :: "LeaderboardEntry list"
  st_raceCountByDate :: "(string \<times> nat) list"
  st_reactionVsET :: "RelationshipData list"
  st_sixtyVsET :: "RelationshipData list"
  st_consistencyRanking :: "LeaderboardEntry list"
  st_performanceByTime :: "time_perf list"
  st_winFactors :: "(string \<times> jsnum) list"
  st_heatMap :: "heat_point list"
  st_improvementRanking :: "LeaderboardEntry list"
  st_mphImprovementRanking :: "LeaderboardEntry list"

definition processStatistics :: "(string \<Rightarrow> real) \<Rightarrow> RaceRecord list \<Rightarrow> error + statistics" where
  "processStatistics tm data =
     (case consistencyLeaderboard data of
        Inl e \<Rightarrow> Inl e
      | Inr consistency \<Rightarrow>
     (case heatMapData data of
        Inl e \<Rightarrow> Inl e
      | Inr heat \<Rightarrow>
     (case improvementData tm data of
        Inl e \<Rightarrow> Inl e
      | Inr improvement \<Rightarrow>
     (case mphImprovementData tm data of
        Inl e \<Rightarrow> Inl e
      | Inr mphImprovement \<Rightarrow>
          Inr \<lparr>st_bestET = etLeaders data,
               st_topSpeed = speedLeaders data,
               st_bestReaction = reactionLeaders data,
               st_best60ft = sixtyFootLeaders data,
               st_mostWins = winsLeaderboard data,
               st_bestWinRate = winRateLeaderboard data,
               st_raceCountByDate = raceCountData tm data,
               st_reactionVsET = reactionETData data,
               st_sixtyVsET = sixtyETData data,
               st_consistencyRanking = consistency,
               st_performanceByTime = timePerformanceData data,
               st_winFactors = winFactorsData data,
               st_heatMap = heat,
               st_improvementRanking = improvement,
               st_mphImprovementRanking = mphImprovement\<rparr>))))"

section \<open>Dashboard view\<close>

text \<open>
  \<open>processData\<close> keeps its accumulators in \<open>Map\<close>s, listed in insertion order. The
  win-rate map holds \<open>{wins, total}\<close>, a pair here.
\<close>

definition dash_driverStats :: "RaceRecord list \<Rightarrow> (nat \<times> nat) jsobject" where
  "dash_driverStats data =
     foldl (\<lambda>acc record.
        upsert (Driver record) (0, 0)
          (\<lambda>(wins, total). (if WinLoss record = ''Win'' then wins + 1 else wins, total + 1)) acc)
       [] data"

definition winRate_point :: "string \<times> nat \<times> nat \<Rightarrow> string \<times> real" where
  "winRate_point = (\<lambda>(d, (wins, total)).
     (displayName ''. '' d,
      if total > 0 then math_round ((real wins / real total) * 100) else 0))"

definition winRateData :: "RaceRecord list \<Rightarrow> (string \<times> real) list" where
  "winRateData data =
     take 6 (js_sort (\<lambda>a b. snd b - snd a) (map winRate_point (dash_driverStats data)))"

definition values_by_driver :: "(RaceRecord \<Rightarrow> real) \<Rightarrow> RaceRecord list \<Rightarrow> real list jsobject" where
  "values_by_driver f data =
     foldl (\<lambda>acc record.
        if present (f record) then upsert (Driver record) [] (\<lambda>vs. vs @ [f record]) acc
        else acc) [] data"

definition reactionsByDriver :: "RaceRecord list \<Rightarrow> real list jsobject" where
  "reactionsByDriver data = values_by_driver Reaction data"

definition avgReaction_point :: "string \<times> real list \<Rightarrow> string \<times> real" where
  "avgReaction_point = (\<lambda>(d, reactions).
     (displayName ''.'' d, to_fixed 3 (reduce_sum reactions / real (length reactions))))"

definition avgReactions :: "RaceRecord list \<Rightarrow> (string \<times> real) list" where
  "avgReactions data =
     take 6 (js_sort (\<lambda>a b. snd a - snd b) (map avgReaction_point (reactionsByDriver data)))"

definition speedsByDriver :: "RaceRecord list \<Rightarrow> real list jsobject" where
  "speedsByDriver data = values_by_driver MPH8 data"

definition avgSpeed_point :: "string \<times> real list \<Rightarrow> string \<times> real" where
  "avgSpeed_point = (\<lambda>(d, speeds).
     (displayName ''.'' d, to_fixed 2 (reduce_sum speeds / real (length speeds))))"

definition avgSpeeds :: "RaceRecord list \<Rightarrow> (string \<times> real) list" where
  "avgSpeeds data =
     take 6 (js_sort (\<lambda>a b. snd b - snd a) (map avgSpeed_point (speedsByDriver data)))"

text \<open>
  The two averages of the stats overview, as the numbers handed to \<open>toFixed(2)\<close>:
  \<open>raceData.reduce((sum, record) => sum + (record[f] || 0), 0) / raceData.length\<close>.
\<close>

definition overview_average :: "(RaceRecord \<Rightarrow> real) \<Rightarrow> RaceRecord list \<Rightarrow> jsnum" where
  "overview_average f raceData =
     js_div (Num (foldl (\<lambda>sum record. sum + (if truthy (f record) then f record else 0)) 0 raceData))
            (Num (real (length raceData)))"

definition overview_avgMPH :: "RaceRecord list \<Rightarrow> jsnum" where
  "overview_avgMPH raceData = overview_average MPH8 raceData"

definition overview_avgET :: "RaceRecord list \<Rightarrow> jsnum" where
  "overview_avgET raceData = overview_average ET8 raceData"

section \<open>Drivers view: the per-driver rollup\<close>

record DriverStats =
  name :: string
  carNumber :: string
  races :: nat
  wins :: nat
  losses :: nat
  winRate :: real
  avgReaction :: real
  avg60ft :: real
  avg330ft :: real
  avgEighthET :: real
  avgEighthMPH :: real
  bestEighthET :: real
  bestThreeThirty :: real
  bestSixtyFoot :: real
  bestReaction :: real
  bestEighthMPH :: real
  raceHistory :: "RaceRecord list"

text \<open>One point of the performance trend; \<open>null\<close> is \<open>None\<close>.\<close>

record trend_point =
  pt_date :: string
  pt_et :: "real option"
  pt_mph :: "real option"
  pt_reaction :: "real option"
  pt_races :: nat
  pt_wins :: nat

record opponent_row =
  op_opponent :: string
  op_races :: nat
  op_wins :: nat
  op_losses :: nat
  op_winRate :: real

text \<open>The state of the component that the effect reads and writes.\<close>

record drivers_state =
  raceData :: "RaceRecord list"
  selectedDriver :: string
  driverStats :: "DriverStats option"
  performanceTrend :: "trend_point list"
  opponentStats :: "opponent_row list"

text \<open>The values of the \<open>useState\<close> calls.\<close>

definition initial_state :: drivers_state where
  "initial_state = \<lparr>raceData = [], selectedDriver = [], driverStats = None,
                     performanceTrend = [], opponentStats = []\<rparr>"

definition calcAverage :: "real list \<Rightarrow> real" where
  "calcAverage values = (if length values > 0 then reduce_sum values / real (length values) else 0)"

text \<open>\<open>xs.length > 0 ? Math.min(...xs) : 0\<close> and the same with \<open>Math.max\<close>.\<close>

definition best_min :: "real list \<Rightarrow> real" where
  "best_min xs = (if length xs > 0 then Min (set xs) else 0)"

definition best_max :: "real list \<Rightarrow> real" where
  "best_max xs = (if length xs > 0 then Max (set xs) else 0)"

definition present_values :: "(RaceRecord \<Rightarrow> real) \<Rightarrow> RaceRecord list \<Rightarrow> real list" where
  "present_values f rs = map f (filter (\<lambda>race. present (f race)) rs)"

definition compile_stats :: "string \<Rightarrow> RaceRecord list \<Rightarrow> DriverStats" where
  "compile_stats sel driverRaces =
     (let wins = length (filter (\<lambda>race. WinLoss race = ''Win'') driverRaces);
          losses = length (filter (\<lambda>race. WinLoss race = ''Loss'') driverRaces);
          reactionTimes = present_values Reaction driverRaces;
          sixtyFootTimes = present_values ft60 driverRaces;
          threeThirtyFootTimes = present_values ft330 driverRaces;
          eighthETTimes = present_values ET8 driverRaces;
          eighthMPHSpeeds = present_values MPH8 driverRaces
      in \<lparr>name = sel,
          carNumber = (case driverRaces of [] \<Rightarrow> [] | r # _ \<Rightarrow> CarNo r),
          races = length driverRaces,
          wins = wins,
          losses = losses,
          winRate = (real wins / real (length driverRaces)) * 100,
          avgReaction = calcAverage reactionTimes,
          avg60ft = calcAverage sixtyFootTimes,
          avg330ft = calcAverage threeThirtyFootTimes,
          avgEighthET = calcAverage eighthETTimes,
          avgEighthMPH = calcAverage eighthMPHSpeeds,
          bestEighthET = best_min eighthETTimes,
          bestThreeThirty = best_min threeThirtyFootTimes,
          bestSixtyFoot = best_min sixtyFootTimes,
          bestReaction = best_min reactionTimes,
          bestEighthMPH = best_max eighthMPHSpeeds,
          raceHistory = driverRaces\<rparr>)"

text \<open>
  The statistics above are handed to \<open>setDriverStats\<close> before anything else is built.
  The races by date and the opponent table that follow, and the metrics by driver of the
  radar chart, are plain objects keyed by the dates, the opponents and the drivers of the
  data; they are as given here when none of these names an inherited property.
\<close>

definition racesByDate :: "RaceRecord list \<Rightarrow> RaceRecord list jsobject" where
  "racesByDate driverRaces =
     foldl (\<lambda>acc race. upsert (Date race) [] (\<lambda>g. g @ [race]) acc) [] driverRaces"

definition opt_min :: "real list \<Rightarrow> real option" where
  "opt_min xs = (if length xs > 0 then Some (Min (set xs)) else None)"

definition opt_max :: "real list \<Rightarrow> real option" where
  "opt_max xs = (if length xs > 0 then Some (Max (set xs)) else None)"

definition performanceData :: "(string \<Rightarrow> real) \<Rightarrow> RaceRecord list \<Rightarrow> trend_point list" where
  "performanceData tm driverRaces =
     js_sort (\<lambda>a b. tm (pt_date a) - tm (pt_date b))
       (map (\<lambda>(d, rs).
               \<lparr>pt_date = d,
                pt_et = opt_min (present_values ET8 rs),
                pt_mph = opt_max (present_values MPH8 rs),
                pt_reaction = opt_min (present_values Reaction rs),
                pt_races = length rs,
                pt_wins = length (filter (\<lambda>r. WinLoss r = ''Win'') rs)\<rparr>)
          (object_entries (racesByDate driverRaces)))"

definition opponentData :: "RaceRecord list \<Rightarrow> opponent_row jsobject" where
  "opponentData driverRaces =
     foldl (\<lambda>acc race.
        upsert (Opponent race)
          \<lparr>op_opponent = Opponent race, op_races = 0, op_wins = 0, op_losses = 0, op_winRate = 0\<rparr>
          (\<lambda>e. if WinLoss race = ''Win''
                then e\<lparr>op_races := op_races e + 1, op_wins := op_wins e + 1\<rparr>
                else e\<lparr>op_races := op_races e + 1, op_losses := op_losses e + 1\<rparr>) acc)
       [] driverRaces"

definition opponentDataArray :: "RaceRecord list \<Rightarrow> opponent_row list" where
  "opponentDataArray driverRaces =
     js_sort (\<lambda>a b. real (op_races b) - real (op_races a))
       (map (\<lambda>e. e\<lparr>op_winRate := (real (op_wins e) / real (op_races e)) * 100\<rparr>)
          (object_values (opponentData driverRaces)))"

text \<open>
  The effect that runs when the selected driver or the data changes. It returns early,
  leaving the state as it is, when no driver is selected or no data is loaded.
\<close>

definition driver_effect :: "(string \<Rightarrow> real) \<Rightarrow> drivers_state \<Rightarrow> drivers_state" where
  "driver_effect tm st =
     (if selectedDriver st = [] \<or> length (raceData st) = 0 then st
      else
        let driverRaces = filter (\<lambda>record. Driver record = selectedDriver st) (raceData st)
        in if length driverRaces = 0
           then st\<lparr>driverStats := None, performanceTrend := [], opponentStats := []\<rparr>
           else st\<lparr>driverStats := Some (compile_stats (selectedDriver st) driverRaces),
                   performanceTrend := performanceData tm driverRaces,
                   opponentStats := opponentDataArray driverRaces\<rparr>)"

text \<open>
  The rollup of a driver over a data set: the effect run on the freshly mounted component
  once the data and the selection are in place.
\<close>

definition driver_rollup :: "(string \<Rightarrow> real) \<Rightarrow> string \<Rightarrow> RaceRecord list \<Rightarrow> drivers_state" where
  "driver_rollup tm sel data =
     driver_effect tm (initial_state\<lparr>raceData := data, selectedDriver := sel\<rparr>)"

section \<open>Drivers view: radar chart normalisation\<close>

record driver_metrics =
  m_reaction :: "real list"
  m_sixtyFoot :: "real list"
  m_threeThirty :: "real list"
  m_eighthET :: "real list"
  m_eighthMPH :: "real list"
  m_wins :: nat
  m_races :: nat

definition push_if :: "bool \<Rightarrow> real \<Rightarrow> real list \<Rightarrow> real list" where
  "push_if c v xs = (if c then xs @ [v] else xs)"

definition allDrivers :: "RaceRecord list \<Rightarrow> driver_metrics jsobject" where
  "allDrivers data =
     foldl (\<lambda>acc race.
        upsert (Driver race)
          \<lparr>m_reaction = [], m_sixtyFoot = [], m_threeThirty = [], m_eighthET = [],
           m_eighthMPH = [], m_wins = 0, m_races = 0\<rparr>
          (\<lambda>e. \<lparr>m_reaction = push_if (present (Reaction race)) (Reaction race) (m_reaction e),
                 m_sixtyFoot = push_if (present (ft60 race)) (ft60 race) (m_sixtyFoot e),
                 m_threeThirty = push_if (present (ft330 race)) (ft330 race) (m_threeThirty e),
                 m_eighthET = push_if (present (ET8 race)) (ET8 race) (m_eighthET e),
                 m_eighthMPH = push_if (present (MPH8 race)) (MPH8 race) (m_eighthMPH e),
                 m_wins = (if WinLoss race = ''Win'' then m_wins e + 1 else m_wins e),
                 m_races = m_races e + 1\<rparr>) acc) [] data"

text \<open>\<open>findMinMax\<close>: the smallest and the largest driver mean, from \<open>Infinity\<close> and
  \<open>-Infinity\<close>; a driver without values is skipped.\<close>

definition minmax_step :: "(driver_metrics \<Rightarrow> real list) \<Rightarrow> jsnum \<times> jsnum \<Rightarrow> driver_metrics
    \<Rightarrow> jsnum \<times> jsnum" where
  "minmax_step accessor mm driverData =
     (let vs = accessor driverData
      in if length vs = 0 then mm
         else let avg = Num (reduce_sum vs / real (length vs));
                  mn = (if js_lt avg (fst mm) then avg else fst mm);
                  mx = (if js_lt (snd mm) avg then avg else snd mm)
              in (mn, mx))"

definition findMinMax :: "driver_metrics jsobject \<Rightarrow> (driver_metrics \<Rightarrow> real list) \<Rightarrow> jsnum \<times> jsnum" where
  "findMinMax drivers accessor =
     foldl (minmax_step accessor) (PosInfinity, NegInfinity) (object_values drivers)"

definition normalizeDirectly :: "real \<Rightarrow> jsnum \<Rightarrow> jsnum \<Rightarrow> jsnum" where
  "normalizeDirectly v mn mx = js_mul (js_div (js_sub (Num v) mn) (js_sub mx mn)) (Num 100)"

definition normalizeInverted :: "real \<Rightarrow> jsnum \<Rightarrow> jsnum \<Rightarrow> jsnum" where
  "normalizeInverted v mn mx =
     js_sub (Num 100) (js_mul (js_div (js_sub (Num v) mn) (js_sub mx mn)) (Num 100))"

definition radarData :: "DriverStats \<Rightarrow> RaceRecord list \<Rightarrow> (string \<times> jsnum) list" where
  "radarData ds data =
     (let drivers = allDrivers data;
          reactionRange = findMinMax drivers m_reaction;
          sixtyFootRange = findMinMax drivers m_sixtyFoot;
          threeThirtyRange = findMinMax drivers m_threeThirty;
          eighthETRange = findMinMax drivers m_eighthET;
          eighthMPHRange = findMinMax drivers m_eighthMPH
      in [(''Reaction'', normalizeInverted (avgReaction ds) (fst reactionRange) (snd reactionRange)),
          (''60ft'', normalizeInverted (avg60ft ds) (fst sixtyFootRange) (snd sixtyFootRange)),
          (''330ft'', normalizeInverted (avg330ft ds) (fst threeThirtyRange) (snd threeThirtyRange)),
          (''1/8 ET'', normalizeInverted (avgEighthET ds) (fst eighthETRange) (snd eighthETRange)),
          (''1/8 MPH'', normalizeDirectly (avgEighthMPH ds) (fst eighthMPHRange) (snd eighthMPHRange)),
          (''Win Rate'', Num (winRate ds))])"

text \<open>\<open>PerformanceRadarChart\<close> renders nothing without a rollup.\<close>

definition PerformanceRadarChart :: "drivers_state \<Rightarrow> (string \<times> jsnum) list option" where
  "PerformanceRadarChart st =
     (case driverStats st of None \<Rightarrow> None | Some ds \<Rightarrow> Some (radarData ds (raceData st)))"

section \<open>Notions of the specification\<close>

text \<open>The races and the wins of a driver, counted on the input.\<close>

definition race_count :: "RaceRecord list \<Rightarrow> string \<Rightarrow> nat" where
  "race_count data d = length (filter (\<lambda>r. Driver r = d) data)"

definition win_count :: "RaceRecord list \<Rightarrow> string \<Rightarrow> nat" where
  "win_count data d = length (filter (\<lambda>r. WinLoss r = ''Win'') (filter (\<lambda>r. Driver r = d) data))"

text \<open>
  Data in which no driver is named like a property that every object inherits, and
  data whose race numbers are not negative.
\<close>

definition own_names :: "RaceRecord list \<Rightarrow> bool" where
  "own_names data = list_all (\<lambda>r. \<not> inherited (Driver r)) data"

definition rounds_numbered :: "RaceRecord list \<Rightarrow> bool" where
  "rounds_numbered data = list_all (\<lambda>r. 0 \<le> RaceNumber r) data"

text \<open>The win-rate entry of a driver: races, and wins per race in percent.\<close>

definition winRate_of :: "RaceRecord list \<Rightarrow> string \<Rightarrow> LeaderboardEntry" where
  "winRate_of data d =
     \<lparr>driver = d, carNo = CarNo (hd (filter (\<lambda>r. Driver r = d) data)),
      val = real (win_count data d) / real (race_count data d) * 100, date = None,
      opponent = None, nraces = Some (race_count data d), improvementPct = None\<rparr>"

text \<open>The recorded ETs of a driver in input order, the mean and the population standard
  deviation (the squared deviations from the mean, divided by the number of samples).\<close>

definition et_samples :: "RaceRecord list \<Rightarrow> string \<Rightarrow> real list" where
  "et_samples data d = map ET8 (filter (\<lambda>r. Driver r = d \<and> 0 < ET8 r) data)"

definition mean :: "real list \<Rightarrow> real" where
  "mean xs = sum_list xs / real (length xs)"

definition population_stddev :: "real list \<Rightarrow> real" where
  "population_stddev xs = sqrt (sum_list (map (\<lambda>x. (x - mean xs) ^ 2) xs) / real (length xs))"

text \<open>
  The qualifying samples of a driver for a metric, each with its date, in input order;
  their chronological arrangement; the averages of its first two and of its last two
  samples; and the trend entries the improvement rankings report for a driver.
\<close>

definition metric_runs :: "(RaceRecord \<Rightarrow> real) \<Rightarrow> RaceRecord list \<Rightarrow> string \<Rightarrow> (string \<times> real) list" where
  "metric_runs f data d = map (\<lambda>r. (Date r, f r)) (filter (\<lambda>r. Driver r = d \<and> 0 < f r) data)"

definition first_carNo :: "(RaceRecord \<Rightarrow> real) \<Rightarrow> RaceRecord list \<Rightarrow> string \<Rightarrow> string" where
  "first_carNo f data d = CarNo (hd (filter (\<lambda>r. Driver r = d \<and> 0 < f r) data))"

definition chronological :: "(string \<Rightarrow> real) \<Rightarrow> (string \<times> real) list \<Rightarrow> (string \<times> real) list" where
  "chronological tm rs = sort_key (\<lambda>run. tm (fst run)) rs"

definition early_average :: "(string \<Rightarrow> real) \<Rightarrow> (string \<times> real) list \<Rightarrow> real" where
  "early_average tm rs = (snd (chronological tm rs ! 0) + snd (chronological tm rs ! 1)) / 2"

definition late_average :: "(string \<Rightarrow> real) \<Rightarrow> (string \<times> real) list \<Rightarrow> real" where
  "late_average tm rs =
     (snd (chronological tm rs ! (length rs - 2)) + snd (chronological tm rs ! (length rs - 1))) / 2"

definition ET_trend :: "(string \<Rightarrow> real) \<Rightarrow> RaceRecord list \<Rightarrow> string \<Rightarrow> LeaderboardEntry" where
  "ET_trend tm data d =
     \<lparr>driver = displayName ''. '' d, carNo = first_carNo ET8 data d,
      val = late_average tm (metric_runs ET8 data d) - early_average tm (metric_runs ET8 data d),
      date = None, opponent = None, nraces = None,
      improvementPct =
        Some ((early_average tm (metric_runs ET8 data d) - late_average tm (metric_runs ET8 data d))
              / early_average tm (metric_runs ET8 data d) * 100)\<rparr>"

definition MPH_trend :: "(string \<Rightarrow> real) \<Rightarrow> RaceRecord list \<Rightarrow> string \<Rightarrow> LeaderboardEntry" where
  "MPH_trend tm data d =
     \<lparr>driver = displayName ''. '' d, carNo = first_carNo MPH8 data d,
      val = late_average tm (metric_runs MPH8 data d) - early_average tm (metric_runs MPH8 data d),
      date = None, opponent = None, nraces = None,
      improvementPct =
        Some ((late_average tm (metric_runs MPH8 data d) - early_average tm (metric_runs MPH8 data d))
              / early_average tm (metric_runs MPH8 data d) * 100)\<rparr>"

text \<open>
  A leaderboard \<open>out\<close> drawn from the entries \<open>src\<close>: at most \<open>k\<close> entries, in
  ascending order of the key \<open>f\<close> (a descending order is an ascending order of the negated
  key), and the entries with one and the same key are the first of those in \<open>src\<close>, in
  the order they have there.
\<close>

definition ranked_top :: "nat \<Rightarrow> ('a \<Rightarrow> real) \<Rightarrow> 'a list \<Rightarrow> 'a list \<Rightarrow> bool" where
  "ranked_top k f src out \<longleftrightarrow>
     length out \<le> k \<and> sorted (map f out)
     \<and> (\<forall>v. prefix (filter (\<lambda>x. f x = v) out) (filter (\<lambda>x. f x = v) src))"

section \<open>Example inputs\<close>

definition mk_race :: "string \<Rightarrow> string \<Rightarrow> int \<Rightarrow> real \<Rightarrow> real \<Rightarrow> real \<Rightarrow> string \<Rightarrow> RaceRecord" where
  "mk_race d day n rt et mph res =
     \<lparr>Driver = d, CarNo = ''7'', Date = day, RaceNumber = n, Reaction = rt, ft60 = 1, ft330 = 3,
      ET8 = et, MPH8 = mph, Opponent = ''Bye'', OpponentCarNo = [], WinLoss = res\<rparr>"

text \<open>A season that consists of one bye run.\<close>

definition bye_only :: "RaceRecord list" where
  "bye_only = [mk_race ''Ann Lee'' ''2024-03-14'' 1 (5 / 100) 8 90 ''Win'']"

text \<open>One pairing in which the loser has neither a reaction time nor a speed.\<close>

definition one_pairing :: "RaceRecord list" where
  "one_pairing = [mk_race ''Ann Lee'' ''2024-03-14'' 1 (1 / 2) 8 100 ''Win'',
                  mk_race ''Bob Ray'' ''2024-03-14'' 1 0 9 0 ''Loss'']"

text \<open>Eleven drivers, four winning runs each, all with the same figures.\<close>

definition eleven_drivers :: "RaceRecord list" where
  "eleven_drivers =
     concat (map (\<lambda>c. replicate 4 (mk_race [c] ''2024-03-14'' 1 (5 / 100) 8 90 ''Win''))
               ''ABCDEFGHIJK'')"

text \<open>A stand-in for the date parser on the two dates of the examples.\<close>

definition example_tm :: "string \<Rightarrow> real" where
  "example_tm s = (if s = ''2024-03-14'' then 1 else 2)"

text \<open>A run with a reaction time of half a millisecond.\<close>

definition quick_run :: RaceRecord where
  "quick_run = mk_race ''Ann Lee'' ''2024-03-14'' 1 (1 / 2000) 8 90 ''Win''"

text \<open>
  Two seasons of one driver that differ only in whether the second reaction time was
  recorded, and a season in which none was.
\<close>

definition both_recorded :: "RaceRecord list" where
  "both_recorded = [mk_race ''Ann Lee'' ''2024-03-14'' 1 (1 / 2) 8 90 ''Win'',
                    mk_race ''Ann Lee'' ''2024-03-14'' 2 (1 / 2) 8 90 ''Win'']"

definition one_recorded :: "RaceRecord list" where
  "one_recorded = [mk_race ''Ann Lee'' ''2024-03-14'' 1 (1 / 2) 8 90 ''Win'',
                   mk_race ''Ann Lee'' ''2024-03-14'' 2 0 8 90 ''Win'']"

definition none_recorded :: "RaceRecord list" where
  "none_recorded = [mk_race ''Ann Lee'' ''2024-03-14'' 1 0 8 90 ''Win'']"

text \<open>A driver with three races (two wins, ETs 8.0, 7.5 and 7.8) and one with two.\<close>

definition three_and_two :: "RaceRecord list" where
  "three_and_two =
     [mk_race ''Ann Lee'' ''2024-03-14'' 1 (5 / 100) 8 90 ''Win'',
      mk_race ''Bob Ray'' ''2024-03-14'' 1 (8 / 100) 9 80 ''Loss'',
      mk_race ''Ann Lee'' ''2024-03-14'' 2 (5 / 100) (15 / 2) 90 ''Win'',
      mk_race ''Ann Lee'' ''2024-03-21'' 1 (5 / 100) (39 / 5) 90 ''Loss'',
      mk_race ''Bob Ray'' ''2024-03-21'' 1 (8 / 100) 9 80 ''Win'']"

text \<open>
  The same records and one run of a driver whose name is that of a property every
  object inherits.
\<close>

definition with_inherited_name :: "RaceRecord list" where
  "with_inherited_name =
     three_and_two @ [mk_race ''constructor'' ''2024-03-21'' 2 (6 / 100) 8 85 ''Win'']"

text \<open>
  A driver with four runs, entered out of chronological order, and a driver with three.
\<close>

definition four_and_three :: "RaceRecord list" where
  "four_and_three =
     [mk_race ''Ann Lee'' ''2024-03-21'' 1 (5 / 100) (38 / 5) 92 ''Win'',
      mk_race ''Ann Lee'' ''2024-03-14'' 1 (5 / 100) 8 90 ''Win'',
      mk_race ''Bob Ray'' ''2024-03-14'' 1 (8 / 100) 9 80 ''Loss'',
      mk_race ''Ann Lee'' ''2024-03-14'' 2 (5 / 100) (39 / 5) 91 ''Loss'',
      mk_race ''Bob Ray'' ''2024-03-14'' 2 (8 / 100) 9 81 ''Win'',
      mk_race ''Ann Lee'' ''2024-03-21'' 2 (5 / 100) (37 / 5) 93 ''Win'',
      mk_race ''Bob Ray'' ''2024-03-21'' 1 (8 / 100) 9 82 ''Loss'']"

section \<open>Sorting, summing and grouping: basic facts\<close>

lemma js_insert_asc: "js_insert (\<lambda>a b. f a - f b) x ys = insort_key f x ys"
  by (induction ys) auto

lemma js_sort_asc: "js_sort (\<lambda>a b. f a - f b) xs = sort_key f xs"
  by (induction xs) (simp_all add: js_sort_def js_insert_asc)

lemma js_insert_desc: "js_insert (\<lambda>a b. f b - f a) x ys = insort_key (\<lambda>x. - f x) x ys"
  by (induction ys) auto

lemma js_sort_desc: "js_sort (\<lambda>a b. f b - f a) xs = sort_key (\<lambda>x. - f x) xs"
  by (induction xs) (simp_all add: js_sort_def js_insert_desc)

lemma reduce_sum_acc: "foldl (\<lambda>sum v. sum + v) a xs = a + sum_list xs" for a :: real
  by (induction xs arbitrary: a) simp_all

lemma reduce_sum_eq: "reduce_sum xs = sum_list xs"
  by (simp add: reduce_sum_def reduce_sum_acc)

lemma foldl_filter: "foldl (\<lambda>acc r. if P r then g acc r else acc) a xs = foldl g a (filter P xs)"
  by (induction xs arbitrary: a) simp_all

lemma set_object_entries: "set (object_entries acc) = set acc"
  by (auto simp: object_entries_def)

lemma set_object_values: "set (object_values acc) = snd ` set acc"
  by (simp add: object_values_def set_object_entries)

lemma length_object_values: "length (object_values acc) = length acc"
  using sum_length_filter_compl [of "\<lambda>kv. array_index (fst kv) \<noteq> None" acc]
  by (simp add: object_values_def object_entries_def comp_def)

lemma map_of_upsert_map:
  "map_of (map (\<lambda>(k', v). if k' = k then (k', f v) else (k', v)) acc) k' =
     (if k' = k then map_option f (map_of acc k) else map_of acc k')"
  by (induction acc) auto

lemma map_of_upsert:
  "map_of (upsert k i f acc) k' =
     (if k' = k then Some (f (case map_of acc k of None \<Rightarrow> i | Some v \<Rightarrow> v)) else map_of acc k')"
proof (cases "has_key k acc")
  case True
  then obtain v where "map_of acc k = Some v"
    by (auto simp: has_key_def dest: weak_map_of_SomeI)
  with True show ?thesis
    by (simp add: upsert_def map_of_upsert_map)
next
  case False
  then have "map_of acc k = None"
    by (simp add: has_key_def map_of_eq_None_iff)
  with False show ?thesis
    by (auto simp: upsert_def map_add_def split: option.splits)
qed

lemma keys_upsert:
  "map fst (upsert k i f acc) = (if has_key k acc then map fst acc else map fst acc @ [k])"
  by (auto simp: upsert_def has_key_def split_def)

lemma distinct_upsert: "distinct (map fst acc) \<Longrightarrow> distinct (map fst (upsert k i f acc))"
  by (auto simp: keys_upsert has_key_def)

lemma distinct_grouped:
  "distinct (map fst acc0) \<Longrightarrow>
   distinct (map fst (foldl (\<lambda>acc r. upsert (key r) (init r) (step r) acc) acc0 data))"
  by (induction data arbitrary: acc0) (simp_all add: distinct_upsert)

text \<open>
  What a grouping \<open>reduce\<close> holds under a key: the entry created from the first record
  with that key, updated by every record with that key in input order.
\<close>

lemma map_of_grouped:
  "map_of (foldl (\<lambda>acc r. upsert (key r) (init r) (step r) acc) acc0 data) k =
     (case map_of acc0 k of
        Some v \<Rightarrow> Some (foldl (\<lambda>v r. step r v) v (filter (\<lambda>r. key r = k) data))
      | None \<Rightarrow>
         (case filter (\<lambda>r. key r = k) data of
            [] \<Rightarrow> None
          | r0 # rs \<Rightarrow> Some (foldl (\<lambda>v r. step r v) (init r0) (r0 # rs))))"
proof (induction data arbitrary: acc0)
  case Nil
  show ?case by (simp split: option.splits)
next
  case (Cons r data)
  show ?case
    by (simp add: Cons.IH map_of_upsert split: option.splits list.splits)
qed

lemma grouped_member:
  "(k, v) \<in> set (foldl (\<lambda>acc r. upsert (key r) (init r) (step r) acc) [] data) \<longleftrightarrow>
     (case filter (\<lambda>r. key r = k) data of
        [] \<Rightarrow> False
      | r0 # rs \<Rightarrow> v = foldl (\<lambda>v r. step r v) (init r0) (r0 # rs))"
proof -
  let ?g = "foldl (\<lambda>acc r. upsert (key r) (init r) (step r) acc) [] data"
  have d: "distinct (map fst ?g)" by (rule distinct_grouped) simp
  have "(k, v) \<in> set ?g \<longleftrightarrow> map_of ?g k = Some v"
    using d by simp
  then show ?thesis
    by (simp add: map_of_grouped split: list.splits) auto
qed

section \<open>Win-factor analysis without a valid comparison\<close>

lemma compare_group_bounded:
  assumes "betterReaction wa \<le> totalComparisons wa" "better60ft wa \<le> totalComparisons wa"
    "better330 wa \<le> totalComparisons wa" "betterMPH wa \<le> totalComparisons wa"
  shows "betterReaction (compare_group wa grp) \<le> totalComparisons (compare_group wa grp)
       \<and> better60ft (compare_group wa grp) \<le> totalComparisons (compare_group wa grp)
       \<and> better330 (compare_group wa grp) \<le> totalComparisons (compare_group wa grp)
       \<and> betterMPH (compare_group wa grp) \<le> totalComparisons (compare_group wa grp)"
  using assms by (simp add: compare_group_def bump_def split: option.splits)

lemma compare_groups_bounded:
  assumes "betterReaction wa \<le> totalComparisons wa" "better60ft wa \<le> totalComparisons wa"
    "better330 wa \<le> totalComparisons wa" "betterMPH wa \<le> totalComparisons wa"
  shows "betterReaction (foldl compare_group wa grps) \<le> totalComparisons (foldl compare_group wa grps)
       \<and> better60ft (foldl compare_group wa grps) \<le> totalComparisons (foldl compare_group wa grps)
       \<and> better330 (foldl compare_group wa grps) \<le> totalComparisons (foldl compare_group wa grps)
       \<and> betterMPH (foldl compare_group wa grps) \<le> totalComparisons (foldl compare_group wa grps)"
  using assms
proof (induction grps arbitrary: wa)
  case Nil
  then show ?case by simp
next
  case (Cons g grps)
  from compare_group_bounded [OF Cons.prems, of g] show ?case
    by (simp add: Cons.IH)
qed

lemma percentage_zero: "percentage 0 0 = NaN"
  by (simp add: percentage_def)

text \<open>Whenever the data hold no valid comparison, each of the four percentages is \<open>NaN\<close>.\<close>

lemma winFactors_NaN_without_comparisons:
  assumes "totalComparisons (winAnalysis data) = 0"
  shows "map snd (winFactorsData data) = [NaN, NaN, NaN, NaN]"
proof -
  have "betterReaction (winAnalysis data) \<le> totalComparisons (winAnalysis data)
      \<and> better60ft (winAnalysis data) \<le> totalComparisons (winAnalysis data)
      \<and> better330 (winAnalysis data) \<le> totalComparisons (winAnalysis data)
      \<and> betterMPH (winAnalysis data) \<le> totalComparisons (winAnalysis data)"
    unfolding winAnalysis_def
    by (rule compare_groups_bounded) (simp_all add: winAnalysis0_def)
  with assms show ?thesis
    by (simp add: winFactorsData_def Let_def percentage_zero)
qed

text \<open>
  Claim C1. With no valid head-to-head comparison, every win-factor percentage should
  be zero. The code divides each tally by the number of comparisons without a guard:
  for the empty data set and for a season of one bye run, all four percentages are \<open>NaN\<close>.
\<close>

theorem winFactors_bye_only_NaN:
  "totalComparisons (winAnalysis bye_only) = 0
   \<and> winFactorsData bye_only =
       [(''Better Reaction'', NaN), (''Better 60ft'', NaN), (''Better 330ft'', NaN),
        (''Higher MPH'', NaN)]
   \<and> winFactorsData [] =
       [(''Better Reaction'', NaN), (''Better 60ft'', NaN), (''Better 330ft'', NaN),
        (''Higher MPH'', NaN)]"
  by code_simp

section \<open>Radar normalisation when all drivers agree\<close>

lemma normalize_equal_bounds_not_finite:
  "normalizeInverted v (Num m) (Num m) \<noteq> Num y" "normalizeDirectly v (Num m) (Num m) \<noteq> Num y"
  by (simp_all add: normalizeInverted_def normalizeDirectly_def)

lemma normalize_at_equal_bounds:
  "normalizeInverted m (Num m) (Num m) = NaN" "normalizeDirectly m (Num m) (Num m) = NaN"
  by (simp_all add: normalizeInverted_def normalizeDirectly_def)

text \<open>
  Claim C2. When the smallest and the largest driver mean of a metric coincide, the
  normalised score should be a fixed midpoint. The code divides by \<open>max - min\<close> without
  a guard: for a season with a single driver, the five normalised scores of that driver
  are \<open>NaN\<close>.
\<close>

theorem radar_single_driver_NaN:
  "PerformanceRadarChart (driver_rollup example_tm ''Ann Lee'' bye_only) =
     Some [(''Reaction'', NaN), (''60ft'', NaN), (''330ft'', NaN), (''1/8 ET'', NaN),
           (''1/8 MPH'', NaN), (''Win Rate'', Num 100)]"
  by code_simp

section \<open>Averages that count missing values\<close>

text \<open>
  Claim C3. A record whose value for a metric is not positive should enter neither the
  sum nor the sample count of an average of that metric. In \<open>one_pairing\<close> the loser has
  no speed and no reaction time. The overview's average speed divides by the number of
  all records, and the chart by race number divides the reaction and speed totals by the
  number of records with an ET: both report half of the only recorded value, where the
  per-driver average of the recorded values keeps it.
\<close>

theorem averages_count_missing_records:
  "overview_avgMPH one_pairing = Num 50
   \<and> map tp_avgMPH (timePerformanceData one_pairing) = [50]
   \<and> map tp_avgReaction (timePerformanceData one_pairing) = [1 / 4]
   \<and> calcAverage (present_values MPH8 one_pairing) = 100
   \<and> calcAverage (present_values Reaction one_pairing) = 1 / 2"
  by code_simp

section \<open>The per-driver rollup of a driver without records\<close>

text \<open>
  Claim C9. For every data set and every selected driver with no matching record, the
  rollup is the explicit "no data" result: no statistics (\<open>null\<close>), an empty trend and
  an empty opponent table. This holds for the rollup computed on the mounted component,
  and for the effect run in any state as soon as a driver is selected and data are
  loaded; in the remaining cases the effect returns early and keeps what the state held.
  In no case are statistics compiled from zero records.
\<close>

theorem rollup_no_data:
  assumes "filter (\<lambda>record. Driver record = sel) data = []"
  shows "driverStats (driver_rollup tm sel data) = None
       \<and> performanceTrend (driver_rollup tm sel data) = []
       \<and> opponentStats (driver_rollup tm sel data) = []
       \<and> (sel \<noteq> [] \<and> data \<noteq> [] \<longrightarrow>
            driverStats (driver_effect tm (st\<lparr>raceData := data, selectedDriver := sel\<rparr>)) = None
          \<and> performanceTrend (driver_effect tm (st\<lparr>raceData := data, selectedDriver := sel\<rparr>)) = []
          \<and> opponentStats (driver_effect tm (st\<lparr>raceData := data, selectedDriver := sel\<rparr>)) = [])
       \<and> (driverStats (driver_effect tm (st\<lparr>raceData := data, selectedDriver := sel\<rparr>)) = None
          \<or> driverStats (driver_effect tm (st\<lparr>raceData := data, selectedDriver := sel\<rparr>))
              = driverStats st)"
  using assms by (simp add: driver_rollup_def driver_effect_def initial_state_def Let_def)

theorem rollup_no_data_witness:
  "filter (\<lambda>record. Driver record = ''Zed'') bye_only = []
   \<and> ''Zed'' \<noteq> [] \<and> bye_only \<noteq> []
   \<and> driverStats (driver_rollup example_tm ''Zed'' bye_only) = None
   \<and> driverStats (driver_rollup example_tm ''Ann Lee'' bye_only) \<noteq> None
   \<and> driverStats (driver_effect example_tm
        ((driver_rollup example_tm ''Ann Lee'' bye_only)
           \<lparr>raceData := bye_only, selectedDriver := ''Zed''\<rparr>)) = None"
proof -
  have h: "filter (\<lambda>record. Driver record = ''Zed'') bye_only = []"
    by (simp add: bye_only_def mk_race_def)
  have n: "''Zed'' \<noteq> [] \<and> bye_only \<noteq> []"
    by (simp add: bye_only_def)
  have s: "driverStats (driver_rollup example_tm ''Ann Lee'' bye_only) \<noteq> None"
    by (simp add: driver_rollup_def driver_effect_def initial_state_def bye_only_def mk_race_def
        Let_def)
  from rollup_no_data [OF h, of example_tm "driver_rollup example_tm ''Ann Lee'' bye_only"] h n s
  show ?thesis by blast
qed

section \<open>The threshold of the best-reaction leaderboard\<close>

lemma foldl_push: "foldl (\<lambda>v r. v @ [f r]) a rs = a @ map f rs"
  by (induction rs arbitrary: a) simp_all

text \<open>The dashboard's per-driver lists: the recorded values of each driver, in input order.\<close>

lemma values_by_driver_member:
  "(k, vs) \<in> set (values_by_driver f data) \<longleftrightarrow>
     vs \<noteq> [] \<and> vs = present_values f (filter (\<lambda>r. Driver r = k) data)"
proof -
  have eq: "filter (\<lambda>r. Driver r = k) (filter (\<lambda>r. present (f r)) data)
          = filter (\<lambda>r. present (f r)) (filter (\<lambda>r. Driver r = k) data)"
    by (simp add: conj_commute)
  show ?thesis
    unfolding values_by_driver_def foldl_filter grouped_member eq present_values_def
    by (auto simp: foldl_push split: list.splits)
qed

lemma reactionLeaders_above_threshold:
  "e \<in> set (reactionLeaders data) \<Longrightarrow> 1 / 1000 < val e"
  by (auto simp: reactionLeaders_def js_sort_asc record_entry_def dest!: in_set_takeD)

text \<open>
  Claim C10. A record whose reaction time lies in \<open>(0, 0.001]\<close> never appears in the
  best-reaction leaderboard, all of whose entries exceed \<open>0.001\<close>, although the value is
  positive and counts elsewhere: it is among the values the per-driver rollup averages,
  and in the dashboard's list of the driver's reaction times.
\<close>

theorem reaction_leaderboard_threshold:
  assumes "r \<in> set data" and "0 < Reaction r" and "Reaction r \<le> 1 / 1000"
  shows "record_entry Reaction r \<notin> set (reactionLeaders data)
       \<and> (\<forall>e \<in> set (reactionLeaders data). 1 / 1000 < val e)
       \<and> Reaction r \<in> set (present_values Reaction (filter (\<lambda>x. Driver x = Driver r) data))
       \<and> (\<exists>vs. (Driver r, vs) \<in> set (reactionsByDriver data) \<and> Reaction r \<in> set vs)"
proof -
  have a: "\<forall>e \<in> set (reactionLeaders data). 1 / 1000 < val e"
    using reactionLeaders_above_threshold by blast
  have "val (record_entry Reaction r) = Reaction r"
    by (simp add: record_entry_def)
  with a assms(3) have b: "record_entry Reaction r \<notin> set (reactionLeaders data)"
    by force
  have c: "Reaction r \<in> set (present_values Reaction (filter (\<lambda>x. Driver x = Driver r) data))"
    using assms(1,2) by (auto simp: present_values_def present_def truthy_def)
  then have "(Driver r, present_values Reaction (filter (\<lambda>x. Driver x = Driver r) data))
               \<in> set (reactionsByDriver data)"
    unfolding reactionsByDriver_def values_by_driver_member by auto
  with a b c show ?thesis by blast
qed

theorem reaction_leaderboard_threshold_witness:
  "quick_run \<in> set [quick_run, quick_run\<lparr>Reaction := 1 / 20\<rparr>]
   \<and> 0 < Reaction quick_run \<and> Reaction quick_run \<le> 1 / 1000
   \<and> record_entry Reaction quick_run
        \<notin> set (reactionLeaders [quick_run, quick_run\<lparr>Reaction := 1 / 20\<rparr>])
   \<and> (\<exists>vs. (Driver quick_run, vs) \<in> set (reactionsByDriver [quick_run, quick_run\<lparr>Reaction := 1 / 20\<rparr>])
            \<and> Reaction quick_run \<in> set vs)"
proof -
  have h1: "quick_run \<in> set [quick_run, quick_run\<lparr>Reaction := 1 / 20\<rparr>]" by simp
  have h2: "0 < Reaction quick_run" by (simp add: quick_run_def mk_race_def)
  have h3: "Reaction quick_run \<le> 1 / 1000" by (simp add: quick_run_def mk_race_def)
  from reaction_leaderboard_threshold [OF h1 h2 h3] h1 h2 h3 show ?thesis by blast
qed

section \<open>Averages of the per-driver rollup and their sample counts\<close>

lemma present_values_pos: "x \<in> set (present_values f rs) \<Longrightarrow> 0 < x"
  by (auto simp: present_values_def present_def)

lemma sum_list_pos:
  "xs \<noteq> [] \<Longrightarrow> (\<And>x. x \<in> set xs \<Longrightarrow> 0 < x) \<Longrightarrow> 0 < sum_list xs" for xs :: "real list"
  by (induction xs) (auto simp: add_pos_nonneg sum_list_nonneg less_imp_le)

lemma calcAverage_zero_iff:
  assumes "\<And>x. x \<in> set xs \<Longrightarrow> 0 < x"
  shows "calcAverage xs = 0 \<longleftrightarrow> xs = []"
proof (cases "xs = []")
  case True
  then show ?thesis by (simp add: calcAverage_def)
next
  case False
  with assms have "0 < sum_list xs" by (simp add: sum_list_pos)
  with False show ?thesis by (simp add: calcAverage_def reduce_sum_eq)
qed

text \<open>
  Claim C8, as stated: every average comes with an explicit sample count. The rollup
  has no such field. Two seasons with two and with one recorded reaction time give
  rollups that agree in every field but the race history, and the rollup of a driver
  without any recorded reaction time consists of the fields shown, none of which counts
  the reaction samples.
\<close>

theorem rollup_has_no_sample_count:
  "length (present_values Reaction both_recorded) \<noteq> length (present_values Reaction one_recorded)
   \<and> driverStats (driver_rollup example_tm ''Ann Lee'' both_recorded)
       = Some (compile_stats ''Ann Lee'' both_recorded)
   \<and> driverStats (driver_rollup example_tm ''Ann Lee'' one_recorded)
       = Some (compile_stats ''Ann Lee'' one_recorded)
   \<and> (compile_stats ''Ann Lee'' both_recorded)\<lparr>raceHistory := []\<rparr>
       = (compile_stats ''Ann Lee'' one_recorded)\<lparr>raceHistory := []\<rparr>
   \<and> compile_stats ''Ann Lee'' none_recorded =
       \<lparr>name = ''Ann Lee'', carNumber = ''7'', races = 1, wins = 1, losses = 0, winRate = 100,
        avgReaction = 0, avg60ft = 1, avg330ft = 3, avgEighthET = 8, avgEighthMPH = 90,
        bestEighthET = 8, bestThreeThirty = 3, bestSixtyFoot = 1, bestReaction = 0,
        bestEighthMPH = 90, raceHistory = none_recorded\<rparr>"
  by code_simp

text \<open>
  Claim C8, amended. The rollup of a driver carries one count, the number of the driver's
  records, and the records themselves. Each of its five averages is \<open>0\<close> exactly when
  the driver has no recorded (positive) value of that metric, so an average of \<open>0\<close> is
  never a computed value; a driver without recorded reaction times has average and best
  reaction \<open>0\<close>.
\<close>

theorem rollup_average_zero_iff_no_sample:
  assumes "sel \<noteq> []" and "filter (\<lambda>record. Driver record = sel) data \<noteq> []"
  shows "\<exists>ds. driverStats (driver_rollup tm sel data) = Some ds
       \<and> races ds = length (filter (\<lambda>record. Driver record = sel) data)
       \<and> raceHistory ds = filter (\<lambda>record. Driver record = sel) data
       \<and> (avgReaction ds = 0 \<longleftrightarrow> present_values Reaction (raceHistory ds) = [])
       \<and> (avg60ft ds = 0 \<longleftrightarrow> present_values ft60 (raceHistory ds) = [])
       \<and> (avg330ft ds = 0 \<longleftrightarrow> present_values ft330 (raceHistory ds) = [])
       \<and> (avgEighthET ds = 0 \<longleftrightarrow> present_values ET8 (raceHistory ds) = [])
       \<and> (avgEighthMPH ds = 0 \<longleftrightarrow> present_values MPH8 (raceHistory ds) = [])
       \<and> (present_values Reaction (raceHistory ds) = [] \<longrightarrow> bestReaction ds = 0)"
proof -
  let ?rs = "filter (\<lambda>record. Driver record = sel) data"
  from assms have "data \<noteq> []" by auto
  with assms have "driverStats (driver_rollup tm sel data) = Some (compile_stats sel ?rs)"
    by (simp add: driver_rollup_def driver_effect_def initial_state_def Let_def)
  moreover have "races (compile_stats sel ?rs) = length ?rs"
    and "raceHistory (compile_stats sel ?rs) = ?rs"
    by (simp_all add: compile_stats_def Let_def)
  moreover have "avgReaction (compile_stats sel ?rs) = 0 \<longleftrightarrow> present_values Reaction ?rs = []"
    by (simp add: compile_stats_def Let_def calcAverage_zero_iff present_values_pos)
  moreover have "avg60ft (compile_stats sel ?rs) = 0 \<longleftrightarrow> present_values ft60 ?rs = []"
    by (simp add: compile_stats_def Let_def calcAverage_zero_iff present_values_pos)
  moreover have "avg330ft (compile_stats sel ?rs) = 0 \<longleftrightarrow> present_values ft330 ?rs = []"
    by (simp add: compile_stats_def Let_def calcAverage_zero_iff present_values_pos)
  moreover have "avgEighthET (compile_stats sel ?rs) = 0 \<longleftrightarrow> present_values ET8 ?rs = []"
    by (simp add: compile_stats_def Let_def calcAverage_zero_iff present_values_pos)
  moreover have "avgEighthMPH (compile_stats sel ?rs) = 0 \<longleftrightarrow> present_values MPH8 ?rs = []"
    by (simp add: compile_stats_def Let_def calcAverage_zero_iff present_values_pos)
  moreover have "present_values Reaction ?rs = [] \<longrightarrow> bestReaction (compile_stats sel ?rs) = 0"
    by (simp add: compile_stats_def Let_def best_min_def)
  ultimately show ?thesis by simp
qed

theorem rollup_average_zero_iff_no_sample_witness:
  "''Ann Lee'' \<noteq> [] \<and> filter (\<lambda>record. Driver record = ''Ann Lee'') none_recorded \<noteq> []
   \<and> (\<exists>ds. driverStats (driver_rollup example_tm ''Ann Lee'' none_recorded) = Some ds
          \<and> races ds = 1 \<and> avgReaction ds = 0 \<and> bestReaction ds = 0 \<and> avgEighthET ds \<noteq> 0)"
proof -
  have h1: "''Ann Lee'' \<noteq> []" by simp
  have h2: "filter (\<lambda>record. Driver record = ''Ann Lee'') none_recorded \<noteq> []"
    by (simp add: none_recorded_def mk_race_def)
  have f: "filter (\<lambda>record. Driver record = ''Ann Lee'') none_recorded = none_recorded"
    by (simp add: none_recorded_def mk_race_def)
  have r: "present_values Reaction none_recorded = []"
    by (simp add: present_values_def none_recorded_def mk_race_def present_def truthy_def)
  have e: "present_values ET8 none_recorded \<noteq> []"
    by (simp add: present_values_def none_recorded_def mk_race_def present_def truthy_def)
  have n: "length none_recorded = 1" by (simp add: none_recorded_def)
  from rollup_average_zero_iff_no_sample [OF h1 h2, of example_tm]
  obtain ds where "driverStats (driver_rollup example_tm ''Ann Lee'' none_recorded) = Some ds"
    and "races ds = 1" and "avgReaction ds = 0" and "bestReaction ds = 0" and "avgEighthET ds \<noteq> 0"
    unfolding f using r e n by auto
  with h1 h2 show ?thesis by blast
qed

section \<open>Plain objects: inherited property names and steps that throw\<close>

text \<open>
  The accumulators of the win-factor analysis and of the performance by round are keyed
  by texts that the view composes: the key of a pairing holds a hyphen and the text of a
  round number starts with a digit or a sign, so neither is ever the name of an inherited
  property.
\<close>

lemma dash_in_group_key: "CHR ''-'' \<in> set (group_key race)"
  by (simp add: group_key_def)

lemma no_dash_inherited: "list_all (\<lambda>n. CHR ''-'' \<notin> set n) inherited_names"
  by code_simp

lemma group_key_own: "\<not> inherited (group_key race)"
  using dash_in_group_key [of race] no_dash_inherited
  by (auto simp: inherited_def list_all_iff)

lemma digit_chars_all: "list_all (\<lambda>n. char_of (48 + n) \<in> set ''0123456789'') [0..<10]"
  by code_simp

lemma digit_char: "n < 10 \<Longrightarrow> char_of (48 + n) \<in> set ''0123456789''" for n :: nat
  using digit_chars_all by (simp only: list_all_iff) simp

lemma dec_digits_head: "dec_digits n \<noteq> [] \<and> hd (dec_digits n) \<in> set ''0123456789''"
proof (induction n rule: dec_digits.induct)
  case (1 n)
  show ?case
  proof (cases "n < 10")
    case True
    then show ?thesis
      using digit_char [of n] by (subst (1 2) dec_digits.simps) simp
  next
    case False
    with 1 show ?thesis
      by (subst (1 2) dec_digits.simps) simp
  qed
qed

lemma num_to_string_head: "num_to_string i \<noteq> [] \<and> hd (num_to_string i) \<in> set ''-0123456789''"
  using dec_digits_head [of "nat i"] by (auto simp: num_to_string_def)

lemma inherited_head: "list_all (\<lambda>n. n = [] \<or> hd n \<notin> set ''-0123456789'') inherited_names"
  by code_simp

lemma num_to_string_own: "\<not> inherited (num_to_string i)"
  using num_to_string_head [of i] inherited_head
  by (auto simp: inherited_def list_all_iff)

text \<open>
  An accumulator keyed by the driver: records of drivers with an inherited name are passed
  over by an update that assigns, and end a collection that pushes.
\<close>

lemma foldl_filter_not:
  "foldl (\<lambda>acc r. if Q r then acc else g acc r) a xs = foldl g a (filter (\<lambda>r. \<not> Q r) xs)"
  by (induction xs arbitrary: a) simp_all

lemma foldl_obj_update:
  "foldl (\<lambda>acc r. obj_update (key r) (init r) (step r) acc) a data
   = foldl (\<lambda>acc r. upsert (key r) (init r) (step r) acc) a
       (filter (\<lambda>r. \<not> inherited (key r)) data)"
  unfolding obj_update_def by (rule foldl_filter_not)

lemma reduce_push:
  "reduce_throwing (\<lambda>acc r. if Q r then Inr acc else obj_push (key r) (init r) (step r) acc) a data
   = (if list_ex (\<lambda>r. \<not> Q r \<and> inherited (key r)) data then Inl TypeError
      else Inr (foldl (\<lambda>acc r. upsert (key r) (init r) (step r) acc) a
                  (filter (\<lambda>r. \<not> Q r) data)))"
  by (induction data arbitrary: a) (simp_all add: obj_push_def)

lemma reduce_push_all:
  "reduce_throwing (\<lambda>acc r. obj_push (key r) (init r) (step r) acc) a data
   = (if list_ex (\<lambda>r. inherited (key r)) data then Inl TypeError
      else Inr (foldl (\<lambda>acc r. upsert (key r) (init r) (step r) acc) a data))"
  using reduce_push [of "\<lambda>r. False" key init step a data] by simp

lemma own_names_filter: "own_names data \<Longrightarrow> filter (\<lambda>r. \<not> inherited (Driver r)) data = data"
  by (simp add: own_names_def list_all_iff filter_id_conv)

lemma own_names_no_inherited:
  "own_names data \<Longrightarrow> \<not> list_ex (\<lambda>r. P r \<and> inherited (Driver r)) data"
  by (auto simp: own_names_def list_all_iff list_ex_iff)

lemma object_values_member: "v \<in> set (object_values acc) \<longleftrightarrow> (\<exists>k. (k, v) \<in> set acc)"
  by (force simp: set_object_values)

lemma distinct_object_entries:
  assumes "distinct (map fst acc)"
  shows "distinct (map fst (object_entries acc))"
proof -
  from assms have d: "distinct acc" and i: "inj_on fst (set acc)"
    by (simp_all add: distinct_map)
  have "distinct (object_entries acc)"
    unfolding object_entries_def using d by (auto simp del: not_None_eq)
  with i show ?thesis
    by (simp add: distinct_map set_object_entries)
qed

text \<open>When every value records its own key, the values are listed once per key.\<close>

lemma distinct_object_values:
  assumes "distinct (map fst acc)" and "\<And>k v. (k, v) \<in> set acc \<Longrightarrow> label v = k"
  shows "distinct (map label (object_values acc))"
proof -
  have "map label (object_values acc) = map fst (object_entries acc)"
    unfolding object_values_def map_map
    by (rule map_cong) (auto simp: set_object_entries assms(2))
  with assms(1) show ?thesis by (simp add: distinct_object_entries)
qed

lemma reduce_throwing_invariant:
  assumes "I a" and "\<And>a r. I a \<Longrightarrow> r \<in> set xs \<Longrightarrow> \<exists>a'. f a r = Inr a' \<and> I a'"
  shows "\<exists>a'. reduce_throwing f a xs = Inr a' \<and> I a'"
  using assms
proof (induction xs arbitrary: a)
  case Nil
  then show ?case by simp
next
  case (Cons r xs)
  from Cons.prems obtain a' where a': "f a r = Inr a'" "I a'" by fastforce
  from Cons.IH [OF a'(2)] Cons.prems(2) a' show ?case by simp
qed

lemma heatMap_hour_range: "0 \<le> RaceNumber r \<Longrightarrow> 1 \<le> heatMap_hour r \<and> heatMap_hour r \<le> 10"
  by (simp add: heatMap_hour_def)

lemma bin_push_ok:
  assumes "map fst bins = [1..10]" and "1 \<le> h" and "h \<le> 10"
  shows "\<exists>bins'. bin_push h v bins = Inr bins' \<and> map fst bins' = [1..10]"
proof -
  from assms have "h \<in> set (map fst bins)" by simp
  moreover have "map fst (map (\<lambda>(h', ts). if h' = h then (h', ts @ [v]) else (h', ts)) bins)
                   = map fst bins"
    by (induction bins) auto
  ultimately show ?thesis using assms(1) by (simp add: bin_push_def)
qed

lemma day_bins_ok:
  assumes "list_all (\<lambda>r. 0 \<le> RaceNumber r) rs"
  shows "\<exists>bins. day_bins rs = Inr bins"
proof -
  have "\<exists>bins. day_bins rs = Inr bins \<and> map fst bins = [1..10]"
    unfolding day_bins_def
  proof (rule reduce_throwing_invariant)
    show "map fst empty_bins = [1..10]" by (simp add: empty_bins_def comp_def)
  next
    fix bins :: "(int \<times> real list) list" and r
    assume b: "map fst bins = [1..10]" and r: "r \<in> set rs"
    from assms r have "0 \<le> RaceNumber r" by (simp add: list_all_iff)
    then have "1 \<le> heatMap_hour r \<and> heatMap_hour r \<le> 10" by (rule heatMap_hour_range)
    with b show "\<exists>a'. (if present (ET8 r) then bin_push (heatMap_hour r) (ET8 r) bins else Inr bins)
                      = Inr a' \<and> map fst a' = [1..10]"
      using bin_push_ok [of bins "heatMap_hour r" "ET8 r"] by auto
  qed
  then show ?thesis by blast
qed

lemma heatMapData_ok:
  assumes "rounds_numbered data"
  shows "\<exists>points. heatMapData data = Inr points"
proof -
  have "\<exists>points. heatMapData data = Inr points \<and> True"
    unfolding heatMapData_def
  proof (rule reduce_throwing_invariant)
    show True ..
  next
    fix points day
    from assms have "list_all (\<lambda>r. 0 \<le> RaceNumber r) (filter (\<lambda>r. Date r = day) data)"
      by (simp add: rounds_numbered_def list_all_iff)
    then obtain bins where "day_bins (filter (\<lambda>r. Date r = day) data) = Inr bins"
      using day_bins_ok by blast
    then show "\<exists>a'. (case day_bins (filter (\<lambda>r. Date r = day) data) of Inl e \<Rightarrow> Inl e
                     | Inr bins \<Rightarrow> Inr (points @ day_points day bins)) = Inr a' \<and> True"
      by simp
  qed
  then show ?thesis by blast
qed

lemma driverETStats_own:
  assumes "own_names data"
  shows "driverETStats data =
     Inr (foldl (\<lambda>acc race.
        upsert (Driver race) \<lparr>de_driver = Driver race, de_carNo = CarNo race, etTimes = []\<rparr>
          (\<lambda>e. e\<lparr>etTimes := etTimes e @ [ET8 race]\<rparr>) acc)
       [] (filter (\<lambda>race. present (ET8 race)) data))"
proof -
  from assms have "\<not> list_ex (\<lambda>r. inherited (Driver r)) (filter (\<lambda>race. present (ET8 race)) data)"
    by (auto simp: own_names_def list_all_iff list_ex_iff)
  then show ?thesis
    unfolding driverETStats_def reduce_push_all by simp
qed

lemma progress_of_own:
  assumes "own_names data"
  shows "progress_of f data =
     Inr (foldl (\<lambda>acc race.
        upsert (Driver race) \<lparr>dr_driver = Driver race, dr_carNo = CarNo race, runs = []\<rparr>
               (\<lambda>e. e\<lparr>runs := runs e @ [(Date race, f race)]\<rparr>) acc) []
         (filter (\<lambda>r. \<not> (\<not> truthy (f r) \<or> f r \<le> 0)) data))"
proof -
  from assms have "\<not> list_ex (\<lambda>r. \<not> (\<not> truthy (f r) \<or> f r \<le> 0) \<and> inherited (Driver r)) data"
    by (rule own_names_no_inherited)
  then show ?thesis
    unfolding progress_of_def reduce_push by simp
qed

lemma distinct_map_sort_key: "distinct (map f (sort_key g xs)) = distinct (map f xs)"
  by (simp add: distinct_map)

text \<open>
  \<open>processStatistics\<close> returns, with every leaderboard as computed, when no driver has
  an inherited name and no round number is negative.
\<close>

lemma processStatistics_returns:
  assumes "own_names data" and "rounds_numbered data"
  shows "\<exists>st. processStatistics tm data = Inr st
       \<and> st_bestET st = etLeaders data \<and> st_topSpeed st = speedLeaders data
       \<and> st_bestReaction st = reactionLeaders data \<and> st_best60ft st = sixtyFootLeaders data
       \<and> st_mostWins st = winsLeaderboard data \<and> st_bestWinRate st = winRateLeaderboard data
       \<and> consistencyLeaderboard data = Inr (st_consistencyRanking st)
       \<and> improvementData tm data = Inr (st_improvementRanking st)
       \<and> mphImprovementData tm data = Inr (st_mphImprovementRanking st)"
proof -
  from assms(1) obtain c where c: "consistencyLeaderboard data = Inr c"
    by (simp add: consistencyLeaderboard_def driverETStats_own)
  from assms(2) obtain h where h: "heatMapData data = Inr h"
    using heatMapData_ok by blast
  from assms(1) obtain i where i: "improvementData tm data = Inr i"
    by (simp add: improvementData_def driverProgress_def progress_of_own)
  from assms(1) obtain m where m: "mphImprovementData tm data = Inr m"
    by (simp add: mphImprovementData_def driverMphProgress_def progress_of_own)
  show ?thesis
    by (simp add: processStatistics_def c h i m)
qed

section \<open>The win-rate leaderboard and its minimum of three races\<close>

lemma tally_fold:
  "foldl (\<lambda>e r. e\<lparr>dt_races := dt_races e + 1,
                   dt_wins := (if WinLoss r = ''Win'' then dt_wins e + 1 else dt_wins e)\<rparr>) e0 rs
   = e0\<lparr>dt_races := dt_races e0 + length rs,
        dt_wins := dt_wins e0 + length (filter (\<lambda>r. WinLoss r = ''Win'') rs)\<rparr>"
  by (induction rs arbitrary: e0) simp_all

lemma stats_driverStats_own:
  assumes "own_names data"
  shows "stats_driverStats data =
     foldl (\<lambda>acc race.
        upsert (Driver race)
          \<lparr>dt_driver = Driver race, dt_carNo = CarNo race, dt_wins = 0, dt_races = 0\<rparr>
          (\<lambda>e. e\<lparr>dt_races := dt_races e + 1,
                  dt_wins := (if WinLoss race = ''Win'' then dt_wins e + 1 else dt_wins e)\<rparr>)
          acc) [] data"
  unfolding stats_driverStats_def foldl_obj_update own_names_filter [OF assms] ..

lemma stats_driverStats_member:
  assumes "own_names data"
  shows "(k, v) \<in> set (stats_driverStats data) \<longleftrightarrow>
     0 < race_count data k
     \<and> v = \<lparr>dt_driver = k, dt_carNo = CarNo (hd (filter (\<lambda>r. Driver r = k) data)),
            dt_wins = win_count data k, dt_races = race_count data k\<rparr>"
proof (cases "filter (\<lambda>r. Driver r = k) data")
  case Nil
  then show ?thesis
    unfolding stats_driverStats_own [OF assms] grouped_member by (simp add: race_count_def)
next
  case (Cons r0 rs)
  then have "r0 \<in> set (filter (\<lambda>r. Driver r = k) data)" by simp
  then have k: "Driver r0 = k" by simp
  show ?thesis
    unfolding stats_driverStats_own [OF assms] grouped_member tally_fold
    by (simp add: Cons race_count_def win_count_def k)
qed

lemma stats_driverStats_distinct: "distinct (map fst (stats_driverStats data))"
  unfolding stats_driverStats_def foldl_obj_update by (rule distinct_grouped) simp

lemma winRate_entry_of:
  assumes "own_names data" and "v \<in> set (object_values (stats_driverStats data))"
  shows "winRate_entry v = winRate_of data (dt_driver v)" and "dt_races v = race_count data (dt_driver v)"
proof -
  from assms(2) obtain k where "(k, v) \<in> set (stats_driverStats data)"
    unfolding object_values_member by blast
  then have v: "v = \<lparr>dt_driver = k, dt_carNo = CarNo (hd (filter (\<lambda>r. Driver r = k) data)),
            dt_wins = win_count data k, dt_races = race_count data k\<rparr>"
    unfolding stats_driverStats_member [OF assms(1)] by blast
  show "winRate_entry v = winRate_of data (dt_driver v)"
    by (simp add: v winRate_entry_def winRate_of_def)
  show "dt_races v = race_count data (dt_driver v)" by (simp add: v)
qed

text \<open>
  Claim C4, as stated: a driver is on the win-rate leaderboard if and only if the driver
  has at least three races, in every view that ranks by win rate. With eleven drivers of
  four races each, the statistics view keeps ten and drops the eleventh; and the
  dashboard's chart of win percentages lists a driver who has a single race.
\<close>

theorem winRate_three_races_not_sufficient:
  "race_count eleven_drivers ''K'' = 4
   \<and> ''K'' \<notin> set (map driver (winRateLeaderboard eleven_drivers))
   \<and> race_count bye_only ''Ann Lee'' = 1
   \<and> winRateData bye_only = [(''Ann L. '', 100)]"
  by code_simp

text \<open>
  Claim C4, amended. Take data in which no driver has the name of an inherited property.
  The win-rate leaderboard of the statistics view is the first ten entries of the ranking,
  in descending order of win rate, of exactly the drivers with at least three races (three
  suffice, two do not), each of them once, with the driver's number of races and the win
  rate \<open>wins / races * 100\<close>. So every driver on the leaderboard has at least three
  races, and when at most ten drivers have that many, each of them is on it. The view
  shows this leaderboard when, besides, no round number is negative.
\<close>

theorem winRateLeaderboard_threshold:
  assumes "own_names data"
  shows "\<exists>ds. distinct ds
       \<and> (\<forall>d. d \<in> set ds \<longleftrightarrow> 3 \<le> race_count data d)
       \<and> winRateLeaderboard data = take 10 (sort_key (\<lambda>e. - val e) (map (winRate_of data) ds))
       \<and> (length ds \<le> 10 \<longrightarrow>
            (\<forall>d. 3 \<le> race_count data d \<longrightarrow> winRate_of data d \<in> set (winRateLeaderboard data)))
       \<and> (\<forall>e \<in> set (winRateLeaderboard data).
             3 \<le> race_count data (driver e) \<and> e = winRate_of data (driver e))
       \<and> (rounds_numbered data \<longrightarrow>
            (\<exists>st. processStatistics tm data = Inr st
                 \<and> st_bestWinRate st = winRateLeaderboard data))"
proof -
  define V where "V = filter (\<lambda>stats. dt_races stats \<ge> 3) (object_values (stats_driverStats data))"
  define ds where "ds = map dt_driver V"
  have V: "v \<in> set V \<longleftrightarrow> v \<in> set (object_values (stats_driverStats data)) \<and> 3 \<le> dt_races v"
    for v by (simp add: V_def)
  have key: "\<And>k v. (k, v) \<in> set (stats_driverStats data) \<Longrightarrow> dt_driver v = k"
    unfolding stats_driverStats_member [OF assms] by simp
  have "distinct (map dt_driver (object_values (stats_driverStats data)))"
    using stats_driverStats_distinct key by (rule distinct_object_values)
  then have a: "distinct ds" unfolding ds_def V_def by (rule distinct_map_filter)
  have b: "d \<in> set ds \<longleftrightarrow> 3 \<le> race_count data d" for d
  proof
    assume "d \<in> set ds"
    then obtain v where v: "v \<in> set V" "dt_driver v = d" unfolding ds_def by auto
    from v(1) have v': "v \<in> set (object_values (stats_driverStats data))" "3 \<le> dt_races v"
      unfolding V by simp_all
    with winRate_entry_of(2) [OF assms v'(1)] v(2) show "3 \<le> race_count data d" by simp
  next
    assume d: "3 \<le> race_count data d"
    let ?v = "\<lparr>dt_driver = d, dt_carNo = CarNo (hd (filter (\<lambda>r. Driver r = d) data)),
            dt_wins = win_count data d, dt_races = race_count data d\<rparr>"
    from d have "(d, ?v) \<in> set (stats_driverStats data)"
      unfolding stats_driverStats_member [OF assms] by simp
    then have "?v \<in> set (object_values (stats_driverStats data))"
      unfolding object_values_member by blast
    with d have "?v \<in> set V" unfolding V by simp
    then have "dt_driver ?v \<in> dt_driver ` set V" by (rule imageI)
    then show "d \<in> set ds" unfolding ds_def by simp
  qed
  have m: "map winRate_entry V = map (winRate_of data) ds"
    unfolding ds_def map_map
    by (rule map_cong) (auto simp: V winRate_entry_of(1) [OF assms])
  have c: "winRateLeaderboard data = take 10 (sort_key (\<lambda>e. - val e) (map (winRate_of data) ds))"
    unfolding winRateLeaderboard_def js_sort_desc V_def [symmetric] m ..
  have s: "set (winRateLeaderboard data) \<subseteq> winRate_of data ` set ds"
    unfolding c using set_take_subset [of 10 "sort_key (\<lambda>e. - val e) (map (winRate_of data) ds)"]
    by simp
  have d: "length ds \<le> 10 \<longrightarrow>
            (\<forall>d. 3 \<le> race_count data d \<longrightarrow> winRate_of data d \<in> set (winRateLeaderboard data))"
  proof (intro impI allI)
    fix d assume l: "length ds \<le> 10" and q: "3 \<le> race_count data d"
    from l have "set (winRateLeaderboard data) = winRate_of data ` set ds"
      unfolding c by simp
    moreover from q have "d \<in> set ds" unfolding b .
    ultimately show "winRate_of data d \<in> set (winRateLeaderboard data)" by blast
  qed
  have e: "\<forall>e \<in> set (winRateLeaderboard data).
             3 \<le> race_count data (driver e) \<and> e = winRate_of data (driver e)"
  proof
    fix e assume "e \<in> set (winRateLeaderboard data)"
    with s obtain d where "d \<in> set ds" "e = winRate_of data d" by blast
    moreover have "driver (winRate_of data d) = d" by (simp add: winRate_of_def)
    ultimately show "3 \<le> race_count data (driver e) \<and> e = winRate_of data (driver e)"
      using b by simp
  qed
  have f: "rounds_numbered data \<longrightarrow>
            (\<exists>st. processStatistics tm data = Inr st
                 \<and> st_bestWinRate st = winRateLeaderboard data)"
    using processStatistics_returns [OF assms, of tm] by blast
  from a b c d e f show ?thesis by blast
qed

theorem winRateLeaderboard_threshold_witness:
  "own_names three_and_two \<and> rounds_numbered three_and_two
   \<and> race_count three_and_two ''Ann Lee'' = 3 \<and> race_count three_and_two ''Bob Ray'' = 2
   \<and> (\<exists>ds. distinct ds \<and> ''Ann Lee'' \<in> set ds \<and> ''Bob Ray'' \<notin> set ds
          \<and> winRateLeaderboard three_and_two
              = take 10 (sort_key (\<lambda>e. - val e) (map (winRate_of three_and_two) ds)))
   \<and> winRateLeaderboard three_and_two = [winRate_of three_and_two ''Ann Lee'']
   \<and> winRate_of three_and_two ''Ann Lee''
       = \<lparr>driver = ''Ann Lee'', carNo = ''7'', val = 2 / 3 * 100, date = None, opponent = None,
          nraces = Some 3, improvementPct = None\<rparr>
   \<and> (\<exists>st. processStatistics example_tm three_and_two = Inr st
          \<and> st_bestWinRate st = [winRate_of three_and_two ''Ann Lee''])"
proof -
  have h: "own_names three_and_two" by code_simp
  have n: "rounds_numbered three_and_two" by code_simp
  have a: "race_count three_and_two ''Ann Lee'' = 3" by code_simp
  have b: "race_count three_and_two ''Bob Ray'' = 2" by code_simp
  have c: "winRateLeaderboard three_and_two = [winRate_of three_and_two ''Ann Lee'']"
    by code_simp
  have d: "winRate_of three_and_two ''Ann Lee''
       = \<lparr>driver = ''Ann Lee'', carNo = ''7'', val = 2 / 3 * 100, date = None, opponent = None,
          nraces = Some 3, improvementPct = None\<rparr>"
    by code_simp
  from winRateLeaderboard_threshold [OF h, of example_tm]
  obtain ds where ds: "distinct ds"
    and m: "\<forall>d. d \<in> set ds \<longleftrightarrow> 3 \<le> race_count three_and_two d"
    and e: "winRateLeaderboard three_and_two
              = take 10 (sort_key (\<lambda>e. - val e) (map (winRate_of three_and_two) ds))"
    and p: "rounds_numbered three_and_two \<longrightarrow>
            (\<exists>st. processStatistics example_tm three_and_two = Inr st
                 \<and> st_bestWinRate st = winRateLeaderboard three_and_two)"
    by blast
  from m have "''Ann Lee'' \<in> set ds \<longleftrightarrow> 3 \<le> race_count three_and_two ''Ann Lee''"
    by (rule spec)
  with a have ann: "''Ann Lee'' \<in> set ds" by simp
  from m have "''Bob Ray'' \<in> set ds \<longleftrightarrow> 3 \<le> race_count three_and_two ''Bob Ray''"
    by (rule spec)
  with b have bob: "''Bob Ray'' \<notin> set ds" by simp
  from ds ann bob e have q: "\<exists>ds. distinct ds \<and> ''Ann Lee'' \<in> set ds \<and> ''Bob Ray'' \<notin> set ds
          \<and> winRateLeaderboard three_and_two
              = take 10 (sort_key (\<lambda>e. - val e) (map (winRate_of three_and_two) ds))"
    by blast
  from p n have "\<exists>st. processStatistics example_tm three_and_two = Inr st
                 \<and> st_bestWinRate st = winRateLeaderboard three_and_two"
    by (rule mp)
  then have r: "\<exists>st. processStatistics example_tm three_and_two = Inr st
          \<and> st_bestWinRate st = [winRate_of three_and_two ''Ann Lee'']"
    unfolding c .
  show ?thesis
    by (rule conjI [OF h conjI [OF n conjI [OF a conjI [OF b conjI [OF q conjI [OF c conjI [OF d r]]]]]]])
qed

section \<open>The consistency ranking\<close>

lemma etTimes_fold:
  "foldl (\<lambda>e r. e\<lparr>etTimes := etTimes e @ [ET8 r]\<rparr>) e0 rs = e0\<lparr>etTimes := etTimes e0 @ map ET8 rs\<rparr>"
  by (induction rs arbitrary: e0) simp_all

lemma filter_driver_present:
  "filter (\<lambda>r. Driver r = k) (filter (\<lambda>r. present (ET8 r)) data)
   = filter (\<lambda>r. Driver r = k \<and> 0 < ET8 r) data"
  by (auto simp: present_def truthy_def intro: filter_cong)

lemma driverETStats_member:
  assumes "driverETStats data = Inr acc" and "own_names data"
  shows "(k, v) \<in> set acc \<longleftrightarrow>
     et_samples data k \<noteq> []
     \<and> v = \<lparr>de_driver = k,
            de_carNo = CarNo (hd (filter (\<lambda>r. Driver r = k \<and> 0 < ET8 r) data)),
            etTimes = et_samples data k\<rparr>"
proof -
  from assms have acc: "acc = foldl (\<lambda>acc race.
        upsert (Driver race) \<lparr>de_driver = Driver race, de_carNo = CarNo race, etTimes = []\<rparr>
          (\<lambda>e. e\<lparr>etTimes := etTimes e @ [ET8 race]\<rparr>) acc)
       [] (filter (\<lambda>race. present (ET8 race)) data)"
    by (simp add: driverETStats_own)
  show ?thesis
  proof (cases "filter (\<lambda>r. Driver r = k \<and> 0 < ET8 r) data")
    case Nil
    then show ?thesis
      unfolding acc grouped_member filter_driver_present by (simp add: et_samples_def)
  next
    case (Cons r0 rs)
    then have "r0 \<in> set (filter (\<lambda>r. Driver r = k \<and> 0 < ET8 r) data)" by simp
    then have k: "Driver r0 = k" by simp
    show ?thesis
      unfolding acc grouped_member filter_driver_present etTimes_fold
      by (simp add: Cons et_samples_def k)
  qed
qed

lemma driverETStats_distinct:
  assumes "driverETStats data = Inr acc" and "own_names data"
  shows "distinct (map fst acc)"
proof -
  from assms have acc: "acc = foldl (\<lambda>acc race.
        upsert (Driver race) \<lparr>de_driver = Driver race, de_carNo = CarNo race, etTimes = []\<rparr>
          (\<lambda>e. e\<lparr>etTimes := etTimes e @ [ET8 race]\<rparr>) acc)
       [] (filter (\<lambda>race. present (ET8 race)) data)"
    by (simp add: driverETStats_own)
  show ?thesis unfolding acc by (rule distinct_grouped) simp
qed

lemma foldl_add_map: "foldl (\<lambda>sum v. sum + g v) a xs = a + sum_list (map g xs)" for a :: real
  by (induction xs arbitrary: a) simp_all

lemma consistency_entry_val: "val (consistency_entry stats) = population_stddev (etTimes stats)"
  by (simp add: consistency_entry_def Let_def population_stddev_def mean_def reduce_sum_eq
      foldl_add_map)

lemma consistency_entry_fields:
  "driver (consistency_entry stats) = de_driver stats"
  "nraces (consistency_entry stats) = Some (length (etTimes stats))"
  by (simp_all add: consistency_entry_def Let_def)

text \<open>
  For data in which no driver has the name of an inherited property, the consistency
  ranking is the first six entries of a ranking, in ascending order of standard deviation,
  that holds a driver, once, if and only if the driver has at least three recorded
  (positive) ETs; the value of an entry is the population standard deviation of those ETs
  (the squared deviations from the mean divided by their number, not by one less), and
  the entry carries their number. The view shows it when no round number is negative.
\<close>

theorem consistency_ranking:
  assumes "own_names data"
  shows "\<exists>R. consistencyLeaderboard data = Inr (take 6 R)
       \<and> sorted (map val R)
       \<and> distinct (map driver R)
       \<and> (\<forall>d. (\<exists>e \<in> set R. driver e = d) \<longleftrightarrow> 3 \<le> length (et_samples data d))
       \<and> (\<forall>e \<in> set R. val e = population_stddev (et_samples data (driver e))
                     \<and> nraces e = Some (length (et_samples data (driver e))))
       \<and> sorted (map val (take 6 R))
       \<and> (\<forall>e \<in> set (take 6 R).
             3 \<le> length (et_samples data (driver e))
             \<and> val e = population_stddev (et_samples data (driver e)))
       \<and> (rounds_numbered data \<longrightarrow>
            (\<exists>st. processStatistics tm data = Inr st \<and> st_consistencyRanking st = take 6 R))"
proof -
  from assms obtain acc where acc: "driverETStats data = Inr acc"
    by (simp add: driverETStats_own)
  define V where "V = filter (\<lambda>stats. length (etTimes stats) \<ge> 3) (object_values acc)"
  define R where "R = js_sort (\<lambda>a b. val a - val b) (map consistency_entry V)"
  have R: "R = sort_key val (map consistency_entry V)" unfolding R_def by (rule js_sort_asc)
  have ovs: "v \<in> set (object_values acc) \<longleftrightarrow>
     (\<exists>k. et_samples data k \<noteq> []
         \<and> v = \<lparr>de_driver = k,
            de_carNo = CarNo (hd (filter (\<lambda>r. Driver r = k \<and> 0 < ET8 r) data)),
            etTimes = et_samples data k\<rparr>)" for v
    unfolding object_values_member driverETStats_member [OF acc assms] ..
  have V: "v \<in> set V \<longleftrightarrow>
     (\<exists>k. 3 \<le> length (et_samples data k)
         \<and> v = \<lparr>de_driver = k,
            de_carNo = CarNo (hd (filter (\<lambda>r. Driver r = k \<and> 0 < ET8 r) data)),
            etTimes = et_samples data k\<rparr>)" for v
    unfolding V_def by (auto simp: ovs)
  have mem: "e \<in> set R \<longleftrightarrow>
     (\<exists>k. 3 \<le> length (et_samples data k)
         \<and> e = consistency_entry \<lparr>de_driver = k,
            de_carNo = CarNo (hd (filter (\<lambda>r. Driver r = k \<and> 0 < ET8 r) data)),
            etTimes = et_samples data k\<rparr>)" for e
  proof -
    have "e \<in> set R \<longleftrightarrow> (\<exists>v. v \<in> set V \<and> e = consistency_entry v)"
      unfolding R by auto
    then show ?thesis unfolding V by blast
  qed
  have a: "consistencyLeaderboard data = Inr (take 6 R)"
    by (simp add: consistencyLeaderboard_def acc R_def V_def)
  have b: "sorted (map val R)" unfolding R by (rule sorted_sort_key)
  have key: "\<And>k v. (k, v) \<in> set acc \<Longrightarrow> de_driver v = k"
    unfolding driverETStats_member [OF acc assms] by simp
  have "distinct (map de_driver (object_values acc))"
    using driverETStats_distinct [OF acc assms] key by (rule distinct_object_values)
  then have dV: "distinct (map de_driver V)" unfolding V_def by (rule distinct_map_filter)
  have dm: "map driver (map consistency_entry V) = map de_driver V"
    unfolding map_map by (rule map_cong) (simp_all add: consistency_entry_fields)
  from dV have dE: "distinct (map driver (map consistency_entry V))" by (simp only: dm)
  have c: "distinct (map driver R)"
    unfolding R distinct_map_sort_key by (rule dE)
  have d: "(\<exists>e \<in> set R. driver e = d) \<longleftrightarrow> 3 \<le> length (et_samples data d)" for d
    unfolding Bex_def mem by (auto simp: consistency_entry_fields)
  have e: "\<forall>e \<in> set R. val e = population_stddev (et_samples data (driver e))
                     \<and> nraces e = Some (length (et_samples data (driver e)))"
    unfolding Ball_def mem
    by (auto simp: consistency_entry_fields consistency_entry_val)
  have s: "sorted (map val (take 6 R))"
    unfolding take_map [symmetric] using b by (rule sorted_wrt_take)
  have f: "\<forall>e \<in> set (take 6 R).
             3 \<le> length (et_samples data (driver e))
             \<and> val e = population_stddev (et_samples data (driver e))"
  proof
    fix e assume "e \<in> set (take 6 R)"
    then have "e \<in> set R" by (rule in_set_takeD)
    then show "3 \<le> length (et_samples data (driver e))
             \<and> val e = population_stddev (et_samples data (driver e))" using d e by blast
  qed
  have g: "rounds_numbered data \<longrightarrow>
            (\<exists>st. processStatistics tm data = Inr st \<and> st_consistencyRanking st = take 6 R)"
    using processStatistics_returns [OF assms, of tm] a by auto
  from a b c d e s f g show ?thesis by blast
qed

theorem consistency_ranking_witness:
  "own_names three_and_two \<and> rounds_numbered three_and_two
   \<and> et_samples three_and_two ''Ann Lee'' = [8, 15 / 2, 39 / 5]
   \<and> length (et_samples three_and_two ''Bob Ray'') = 2
   \<and> (\<exists>R. consistencyLeaderboard three_and_two = Inr (take 6 R)
          \<and> (\<exists>e \<in> set R. driver e = ''Ann Lee'' \<and> nraces e = Some 3
                \<and> val e = population_stddev [8, 15 / 2, 39 / 5])
          \<and> \<not> (\<exists>e \<in> set R. driver e = ''Bob Ray'')
          \<and> (\<exists>st. processStatistics example_tm three_and_two = Inr st
                 \<and> st_consistencyRanking st = take 6 R))"
proof -
  have h: "own_names three_and_two" by code_simp
  have n: "rounds_numbered three_and_two" by code_simp
  have a: "et_samples three_and_two ''Ann Lee'' = [8, 15 / 2, 39 / 5]" by code_simp
  have b: "length (et_samples three_and_two ''Bob Ray'') = 2" by code_simp
  from consistency_ranking [OF h, of example_tm]
  obtain R where R: "consistencyLeaderboard three_and_two = Inr (take 6 R)"
    and c: "\<forall>d. (\<exists>e \<in> set R. driver e = d) \<longleftrightarrow> 3 \<le> length (et_samples three_and_two d)"
    and d: "\<forall>e \<in> set R. val e = population_stddev (et_samples three_and_two (driver e))
              \<and> nraces e = Some (length (et_samples three_and_two (driver e)))"
    and p: "rounds_numbered three_and_two \<longrightarrow>
            (\<exists>st. processStatistics example_tm three_and_two = Inr st
                 \<and> st_consistencyRanking st = take 6 R)"
    by blast
  from c have "(\<exists>e \<in> set R. driver e = ''Ann Lee'')
      \<longleftrightarrow> 3 \<le> length (et_samples three_and_two ''Ann Lee'')"
    by (rule spec)
  with a have "\<exists>e \<in> set R. driver e = ''Ann Lee''" by simp
  then obtain e where e: "e \<in> set R" "driver e = ''Ann Lee''" by blast
  with d a have "nraces e = Some 3 \<and> val e = population_stddev [8, 15 / 2, 39 / 5]" by auto
  with e have ann: "\<exists>e \<in> set R. driver e = ''Ann Lee'' \<and> nraces e = Some 3
                \<and> val e = population_stddev [8, 15 / 2, 39 / 5]"
    by blast
  from c have "(\<exists>e \<in> set R. driver e = ''Bob Ray'')
      \<longleftrightarrow> 3 \<le> length (et_samples three_and_two ''Bob Ray'')"
    by (rule spec)
  with b have bob: "\<not> (\<exists>e \<in> set R. driver e = ''Bob Ray'')" by simp
  from p n have st: "\<exists>st. processStatistics example_tm three_and_two = Inr st
                 \<and> st_consistencyRanking st = take 6 R"
    by (rule mp)
  from R ann bob st have q: "\<exists>R. consistencyLeaderboard three_and_two = Inr (take 6 R)
          \<and> (\<exists>e \<in> set R. driver e = ''Ann Lee'' \<and> nraces e = Some 3
                \<and> val e = population_stddev [8, 15 / 2, 39 / 5])
          \<and> \<not> (\<exists>e \<in> set R. driver e = ''Bob Ray'')
          \<and> (\<exists>st. processStatistics example_tm three_and_two = Inr st
                 \<and> st_consistencyRanking st = take 6 R)"
    by blast
  show ?thesis
    by (rule conjI [OF h conjI [OF n conjI [OF a conjI [OF b q]]]])
qed

text \<open>
  Claim C6: the consistency ranking is computed for each driver with at least three
  recorded ETs. The ET lists are collected in a plain object, where the dashboard collects
  its lists in a \<open>Map\<close>. A run of a driver named \<open>constructor\<close> finds the inherited
  property instead of an entry and throws when its ET is pushed. Without that run the
  ranking holds the driver with three ETs; with it, no ranking is computed at all and
  \<open>processStatistics\<close> ends with the exception.
\<close>

theorem consistency_inherited_name_throws:
  "et_samples with_inherited_name ''Ann Lee'' = [8, 15 / 2, 39 / 5]
   \<and> et_samples with_inherited_name ''constructor'' = [8]
   \<and> driverETStats with_inherited_name = Inl TypeError
   \<and> consistencyLeaderboard with_inherited_name = Inl TypeError
   \<and> processStatistics example_tm with_inherited_name = Inl TypeError
   \<and> consistencyLeaderboard three_and_two
       = Inr [consistency_entry
                \<lparr>de_driver = ''Ann Lee'', de_carNo = ''7'', etTimes = [8, 15 / 2, 39 / 5]\<rparr>]"
proof -
  have a: "et_samples with_inherited_name ''Ann Lee'' = [8, 15 / 2, 39 / 5]" by code_simp
  have b: "et_samples with_inherited_name ''constructor'' = [8]" by code_simp
  have c: "driverETStats with_inherited_name = Inl TypeError" by code_simp
  have d: "consistencyLeaderboard with_inherited_name = Inl TypeError"
    by (simp add: consistencyLeaderboard_def c)
  have e: "processStatistics example_tm with_inherited_name = Inl TypeError"
    by (simp add: processStatistics_def d)
  have g: "driverETStats three_and_two
       = Inr [(''Ann Lee'',
               \<lparr>de_driver = ''Ann Lee'', de_carNo = ''7'', etTimes = [8, 15 / 2, 39 / 5]\<rparr>),
              (''Bob Ray'', \<lparr>de_driver = ''Bob Ray'', de_carNo = ''7'', etTimes = [9, 9]\<rparr>)]"
    by code_simp
  have h: "object_values
        [(''Ann Lee'',
          \<lparr>de_driver = ''Ann Lee'', de_carNo = ''7'', etTimes = [8, 15 / 2, 39 / 5]\<rparr>),
         (''Bob Ray'', \<lparr>de_driver = ''Bob Ray'', de_carNo = ''7'', etTimes = [9, 9]\<rparr>)]
       = [\<lparr>de_driver = ''Ann Lee'', de_carNo = ''7'', etTimes = [8, 15 / 2, 39 / 5]\<rparr>,
          \<lparr>de_driver = ''Bob Ray'', de_carNo = ''7'', etTimes = [9, 9]\<rparr>]"
    by code_simp
  have f: "consistencyLeaderboard three_and_two
       = Inr [consistency_entry
                \<lparr>de_driver = ''Ann Lee'', de_carNo = ''7'', etTimes = [8, 15 / 2, 39 / 5]\<rparr>]"
    by (simp add: consistencyLeaderboard_def g h js_sort_def)
  show ?thesis
    by (rule conjI [OF a conjI [OF b conjI [OF c conjI [OF d conjI [OF e f]]]]])
qed

section \<open>The improvement rankings\<close>

lemma runs_fold:
  "foldl (\<lambda>e r. e\<lparr>runs := runs e @ [(Date r, f r)]\<rparr>) e0 rs
   = e0\<lparr>runs := runs e0 @ map (\<lambda>r. (Date r, f r)) rs\<rparr>"
  by (induction rs arbitrary: e0) simp_all

lemma filter_driver_qualifying:
  "filter (\<lambda>r. Driver r = k) (filter (\<lambda>r. \<not> (\<not> truthy (f r) \<or> f r \<le> 0)) data)
   = filter (\<lambda>r. Driver r = k \<and> 0 < f r) data"
  by (auto simp: truthy_def intro: filter_cong)

lemma take_two: "2 \<le> length xs \<Longrightarrow> take 2 xs = [xs ! 0, xs ! 1]"
  by (cases xs; cases "tl xs") auto

lemma last_two_nth:
  assumes "2 \<le> length xs"
  shows "last_two xs = [xs ! (length xs - 2), xs ! (length xs - 1)]"
proof (rule nth_equalityI)
  show "length (last_two xs) = length [xs ! (length xs - 2), xs ! (length xs - 1)]"
    using assms by (simp add: last_two_def)
next
  fix i assume "i < length (last_two xs)"
  with assms have i: "i = 0 \<or> i = 1" by (auto simp: last_two_def)
  from assms have e: "Suc (length xs - 2) = length xs - Suc 0" by arith
  from i assms e show "last_two xs ! i = [xs ! (length xs - 2), xs ! (length xs - 1)] ! i"
    by (auto simp: last_two_def)
qed

lemma sortedRuns_chronological: "sortedRuns tm rs = chronological tm rs"
  unfolding sortedRuns_def chronological_def by (rule js_sort_asc)

lemma earlyAvg_eq: "2 \<le> length rs \<Longrightarrow> earlyAvg tm rs = early_average tm rs"
  by (simp add: earlyAvg_def early_average_def sortedRuns_chronological chronological_def take_two)

lemma lateAvg_eq: "2 \<le> length rs \<Longrightarrow> lateAvg tm rs = late_average tm rs"
  by (simp add: lateAvg_def late_average_def sortedRuns_chronological chronological_def last_two_nth)

lemma improvement_entry_eq:
  assumes "4 \<le> length (metric_runs ET8 data k)"
  shows "improvement_entry tm \<lparr>dr_driver = k, dr_carNo = first_carNo ET8 data k,
           runs = metric_runs ET8 data k\<rparr> = ET_trend tm data k"
  using assms by (simp add: improvement_entry_def ET_trend_def earlyAvg_eq lateAvg_eq)

lemma mph_improvement_entry_eq:
  assumes "4 \<le> length (metric_runs MPH8 data k)"
  shows "mph_improvement_entry tm \<lparr>dr_driver = k, dr_carNo = first_carNo MPH8 data k,
           runs = metric_runs MPH8 data k\<rparr> = MPH_trend tm data k"
  using assms by (simp add: mph_improvement_entry_def MPH_trend_def earlyAvg_eq lateAvg_eq)

lemma progress_of_member:
  assumes "progress_of f data = Inr acc" and "own_names data"
  shows "(k, v) \<in> set acc \<longleftrightarrow>
     metric_runs f data k \<noteq> []
     \<and> v = \<lparr>dr_driver = k, dr_carNo = first_carNo f data k, runs = metric_runs f data k\<rparr>"
proof -
  from assms have acc: "acc = foldl (\<lambda>acc race.
        upsert (Driver race) \<lparr>dr_driver = Driver race, dr_carNo = CarNo race, runs = []\<rparr>
               (\<lambda>e. e\<lparr>runs := runs e @ [(Date race, f race)]\<rparr>) acc) []
         (filter (\<lambda>r. \<not> (\<not> truthy (f r) \<or> f r \<le> 0)) data)"
    by (simp add: progress_of_own)
  show ?thesis
  proof (cases "filter (\<lambda>r. Driver r = k \<and> 0 < f r) data")
    case Nil
    then show ?thesis
      unfolding acc grouped_member filter_driver_qualifying by (simp add: metric_runs_def)
  next
    case (Cons r0 rs)
    then have "r0 \<in> set (filter (\<lambda>r. Driver r = k \<and> 0 < f r) data)" by simp
    then have k: "Driver r0 = k" by simp
    show ?thesis
      unfolding acc grouped_member filter_driver_qualifying runs_fold
      by (simp add: Cons metric_runs_def first_carNo_def k)
  qed
qed

lemma progress_of_distinct:
  assumes "progress_of f data = Inr acc" and "own_names data"
  shows "distinct (map fst acc)"
proof -
  from assms have acc: "acc = foldl (\<lambda>acc race.
        upsert (Driver race) \<lparr>dr_driver = Driver race, dr_carNo = CarNo race, runs = []\<rparr>
               (\<lambda>e. e\<lparr>runs := runs e @ [(Date race, f race)]\<rparr>) acc) []
         (filter (\<lambda>r. \<not> (\<not> truthy (f r) \<or> f r \<le> 0)) data)"
    by (simp add: progress_of_own)
  show ?thesis unfolding acc by (rule distinct_grouped) simp
qed

text \<open>The drivers with at least four qualifying samples, as the accumulator lists them.\<close>

lemma progress_groups:
  assumes "progress_of f data = Inr acc" and "own_names data"
  defines "V \<equiv> filter (\<lambda>d. length (runs d) \<ge> 4) (object_values acc)"
  shows "distinct (map dr_driver V)"
    and "d \<in> set (map dr_driver V) \<longleftrightarrow> 4 \<le> length (metric_runs f data d)"
    and "v \<in> set V \<Longrightarrow>
           4 \<le> length (metric_runs f data (dr_driver v))
           \<and> v = \<lparr>dr_driver = dr_driver v, dr_carNo = first_carNo f data (dr_driver v),
                  runs = metric_runs f data (dr_driver v)\<rparr>"
proof -
  have ovs: "v \<in> set (object_values acc) \<longleftrightarrow>
     (\<exists>k. metric_runs f data k \<noteq> []
         \<and> v = \<lparr>dr_driver = k, dr_carNo = first_carNo f data k, runs = metric_runs f data k\<rparr>)"
    for v
    unfolding object_values_member progress_of_member [OF assms(1,2)] ..
  have key: "\<And>k v. (k, v) \<in> set acc \<Longrightarrow> dr_driver v = k"
    unfolding progress_of_member [OF assms(1,2)] by simp
  have "distinct (map dr_driver (object_values acc))"
    using progress_of_distinct [OF assms(1,2)] key by (rule distinct_object_values)
  then show "distinct (map dr_driver V)" unfolding V_def by (rule distinct_map_filter)
  show "d \<in> set (map dr_driver V) \<longleftrightarrow> 4 \<le> length (metric_runs f data d)"
  proof
    assume "d \<in> set (map dr_driver V)"
    then obtain v where "v \<in> set (object_values acc)" "4 \<le> length (runs v)" "dr_driver v = d"
      unfolding V_def by auto
    then show "4 \<le> length (metric_runs f data d)" unfolding ovs by auto
  next
    assume d: "4 \<le> length (metric_runs f data d)"
    let ?v = "\<lparr>dr_driver = d, dr_carNo = first_carNo f data d, runs = metric_runs f data d\<rparr>"
    from d have "metric_runs f data d \<noteq> []" by auto
    then have "?v \<in> set (object_values acc)" unfolding ovs by blast
    with d have "?v \<in> set V" unfolding V_def by simp
    then have "dr_driver ?v \<in> dr_driver ` set V" by (rule imageI)
    then show "d \<in> set (map dr_driver V)" by simp
  qed
  show "4 \<le> length (metric_runs f data (dr_driver v))
           \<and> v = \<lparr>dr_driver = dr_driver v, dr_carNo = first_carNo f data (dr_driver v),
                  runs = metric_runs f data (dr_driver v)\<rparr>" if "v \<in> set V"
  proof -
    from that have "v \<in> set (object_values acc)" "4 \<le> length (runs v)"
      unfolding V_def by simp_all
    then show ?thesis unfolding ovs by auto
  qed
qed

lemma take_all_members:
  "length ds \<le> k \<Longrightarrow> d \<in> set ds \<Longrightarrow> f d \<in> set (take k (sort_key g (map f ds)))"
  by simp

text \<open>
  Claim C7, as stated: the trend of every driver with at least four qualifying samples is
  reported. With eleven such drivers the rankings keep ten: the trend of the eleventh is
  computed and then cut off.
\<close>

theorem improvement_eleventh_driver_dropped:
  "own_names eleven_drivers \<and> rounds_numbered eleven_drivers
   \<and> 4 \<le> length (metric_runs ET8 eleven_drivers ''K'')
   \<and> improvementData example_tm eleven_drivers
       = Inr (map (ET_trend example_tm eleven_drivers)
               [''A'', ''B'', ''C'', ''D'', ''E'', ''F'', ''G'', ''H'', ''I'', ''J''])
   \<and> ET_trend example_tm eleven_drivers ''K''
       \<notin> set (map (ET_trend example_tm eleven_drivers)
               [''A'', ''B'', ''C'', ''D'', ''E'', ''F'', ''G'', ''H'', ''I'', ''J''])
   \<and> 4 \<le> length (metric_runs MPH8 eleven_drivers ''K'')
   \<and> mphImprovementData example_tm eleven_drivers
       = Inr (map (MPH_trend example_tm eleven_drivers)
               [''A'', ''B'', ''C'', ''D'', ''E'', ''F'', ''G'', ''H'', ''I'', ''J''])
   \<and> MPH_trend example_tm eleven_drivers ''K''
       \<notin> set (map (MPH_trend example_tm eleven_drivers)
               [''A'', ''B'', ''C'', ''D'', ''E'', ''F'', ''G'', ''H'', ''I'', ''J''])"
  by code_simp

text \<open>
  Claim C7, amended. Take data in which no driver has the name of an inherited property.
  Each improvement ranking is the first ten entries of the ranking, ordered by the delta
  (ascending for ET, descending for MPH), of exactly the drivers with at least four
  qualifying (positive) samples of the metric, each of them once with the trend: the
  samples sorted chronologically, the first two and the last two averaged, the delta
  \<open>late - early\<close> and the percentage change (\<open>(early - late) / early * 100\<close> for ET,
  \<open>(late - early) / early * 100\<close> for MPH), under the driver's display name. When at
  most ten drivers qualify, the trend of each is in the ranking; no entry stems from a
  driver with three or fewer qualifying samples. The view shows the rankings when,
  besides, no round number is negative.
\<close>

theorem improvement_rankings:
  assumes "own_names data"
  shows "(\<exists>ds. distinct ds
          \<and> (\<forall>d. d \<in> set ds \<longleftrightarrow> 4 \<le> length (metric_runs ET8 data d))
          \<and> improvementData tm data
              = Inr (take 10 (sort_key val (map (ET_trend tm data) ds)))
          \<and> (length ds \<le> 10 \<longrightarrow>
               (\<forall>d \<in> set ds. ET_trend tm data d
                  \<in> set (take 10 (sort_key val (map (ET_trend tm data) ds))))))
       \<and> (\<exists>ds. distinct ds
          \<and> (\<forall>d. d \<in> set ds \<longleftrightarrow> 4 \<le> length (metric_runs MPH8 data d))
          \<and> mphImprovementData tm data
              = Inr (take 10 (sort_key (\<lambda>e. - val e) (map (MPH_trend tm data) ds)))
          \<and> (length ds \<le> 10 \<longrightarrow>
               (\<forall>d \<in> set ds. MPH_trend tm data d
                  \<in> set (take 10 (sort_key (\<lambda>e. - val e) (map (MPH_trend tm data) ds))))))
       \<and> (rounds_numbered data \<longrightarrow>
            (\<exists>st. processStatistics tm data = Inr st
                 \<and> improvementData tm data = Inr (st_improvementRanking st)
                 \<and> mphImprovementData tm data = Inr (st_mphImprovementRanking st)))"
proof (intro conjI)
  from assms obtain acc where acc: "progress_of ET8 data = Inr acc"
    by (simp add: progress_of_own)
  define V where "V = filter (\<lambda>d. length (runs d) \<ge> 4) (object_values acc)"
  define ds where "ds = map dr_driver V"
  note G = progress_groups [OF acc assms, folded V_def]
  have a: "distinct ds" unfolding ds_def by (rule G(1))
  have b: "\<forall>d. d \<in> set ds \<longleftrightarrow> 4 \<le> length (metric_runs ET8 data d)"
    unfolding ds_def using G(2) by blast
  have m: "map (improvement_entry tm) V = map (ET_trend tm data) ds"
    unfolding ds_def map_map
  proof (rule map_cong [OF refl])
    fix v assume "v \<in> set V"
    from G(3) [OF this] improvement_entry_eq [of data "dr_driver v" tm]
    show "improvement_entry tm v = (ET_trend tm data \<circ> dr_driver) v"
      by (metis comp_apply)
  qed
  have c: "improvementData tm data = Inr (take 10 (sort_key val (map (ET_trend tm data) ds)))"
    unfolding improvementData_def driverProgress_def acc sum.case js_sort_asc
      V_def [symmetric] m ..
  have d: "length ds \<le> 10 \<longrightarrow>
             (\<forall>d \<in> set ds. ET_trend tm data d
                \<in> set (take 10 (sort_key val (map (ET_trend tm data) ds))))"
    using take_all_members [of ds 10 _ "ET_trend tm data" val] by blast
  from a b c d show "\<exists>ds. distinct ds
          \<and> (\<forall>d. d \<in> set ds \<longleftrightarrow> 4 \<le> length (metric_runs ET8 data d))
          \<and> improvementData tm data
              = Inr (take 10 (sort_key val (map (ET_trend tm data) ds)))
          \<and> (length ds \<le> 10 \<longrightarrow>
               (\<forall>d \<in> set ds. ET_trend tm data d
                  \<in> set (take 10 (sort_key val (map (ET_trend tm data) ds)))))"
    by blast
next
  from assms obtain acc where acc: "progress_of MPH8 data = Inr acc"
    by (simp add: progress_of_own)
  define V where "V = filter (\<lambda>d. length (runs d) \<ge> 4) (object_values acc)"
  define ds where "ds = map dr_driver V"
  note G = progress_groups [OF acc assms, folded V_def]
  have a: "distinct ds" unfolding ds_def by (rule G(1))
  have b: "\<forall>d. d \<in> set ds \<longleftrightarrow> 4 \<le> length (metric_runs MPH8 data d)"
    unfolding ds_def using G(2) by blast
  have m: "map (mph_improvement_entry tm) V = map (MPH_trend tm data) ds"
    unfolding ds_def map_map
  proof (rule map_cong [OF refl])
    fix v assume "v \<in> set V"
    from G(3) [OF this] mph_improvement_entry_eq [of data "dr_driver v" tm]
    show "mph_improvement_entry tm v = (MPH_trend tm data \<circ> dr_driver) v"
      by (metis comp_apply)
  qed
  have c: "mphImprovementData tm data
             = Inr (take 10 (sort_key (\<lambda>e. - val e) (map (MPH_trend tm data) ds)))"
    unfolding mphImprovementData_def driverMphProgress_def acc sum.case js_sort_desc
      V_def [symmetric] m ..
  have d: "length ds \<le> 10 \<longrightarrow>
             (\<forall>d \<in> set ds. MPH_trend tm data d
                \<in> set (take 10 (sort_key (\<lambda>e. - val e) (map (MPH_trend tm data) ds))))"
    using take_all_members [of ds 10 _ "MPH_trend tm data" "\<lambda>e. - val e"] by blast
  from a b c d show "\<exists>ds. distinct ds
          \<and> (\<forall>d. d \<in> set ds \<longleftrightarrow> 4 \<le> length (metric_runs MPH8 data d))
          \<and> mphImprovementData tm data
              = Inr (take 10 (sort_key (\<lambda>e. - val e) (map (MPH_trend tm data) ds)))
          \<and> (length ds \<le> 10 \<longrightarrow>
               (\<forall>d \<in> set ds. MPH_trend tm data d
                  \<in> set (take 10 (sort_key (\<lambda>e. - val e) (map (MPH_trend tm data) ds)))))"
    by blast
next
  show "rounds_numbered data \<longrightarrow>
            (\<exists>st. processStatistics tm data = Inr st
                 \<and> improvementData tm data = Inr (st_improvementRanking st)
                 \<and> mphImprovementData tm data = Inr (st_mphImprovementRanking st))"
    using processStatistics_returns [OF assms, of tm] by blast
qed

theorem improvement_rankings_witness:
  "own_names four_and_three \<and> rounds_numbered four_and_three
   \<and> 4 \<le> length (metric_runs ET8 four_and_three ''Ann Lee'')
   \<and> length (metric_runs ET8 four_and_three ''Bob Ray'') = 3
   \<and> (\<exists>ds. distinct ds \<and> ''Ann Lee'' \<in> set ds \<and> ''Bob Ray'' \<notin> set ds
          \<and> improvementData example_tm four_and_three
              = Inr (take 10 (sort_key val (map (ET_trend example_tm four_and_three) ds))))
   \<and> (\<exists>ds. distinct ds \<and> ''Ann Lee'' \<in> set ds
          \<and> mphImprovementData example_tm four_and_three
              = Inr (take 10 (sort_key (\<lambda>e. - val e)
                                (map (MPH_trend example_tm four_and_three) ds))))
   \<and> improvementData example_tm four_and_three
       = Inr [ET_trend example_tm four_and_three ''Ann Lee'']
   \<and> ET_trend example_tm four_and_three ''Ann Lee'' =
       \<lparr>driver = ''Ann L. '', carNo = ''7'', val = - (2 / 5), date = None, opponent = None,
        nraces = None, improvementPct = Some (400 / 79)\<rparr>
   \<and> MPH_trend example_tm four_and_three ''Ann Lee'' =
       \<lparr>driver = ''Ann L. '', carNo = ''7'', val = 2, date = None, opponent = None,
        nraces = None, improvementPct = Some (400 / 181)\<rparr>
   \<and> (\<exists>st. processStatistics example_tm four_and_three = Inr st
          \<and> st_improvementRanking st = [ET_trend example_tm four_and_three ''Ann Lee''])"
proof -
  have h: "own_names four_and_three" by code_simp
  have n: "rounds_numbered four_and_three" by code_simp
  have a: "4 \<le> length (metric_runs ET8 four_and_three ''Ann Lee'')" by code_simp
  have a': "4 \<le> length (metric_runs MPH8 four_and_three ''Ann Lee'')" by code_simp
  have b: "length (metric_runs ET8 four_and_three ''Bob Ray'') = 3" by code_simp
  have c: "improvementData example_tm four_and_three
             = Inr [ET_trend example_tm four_and_three ''Ann Lee'']"
    by code_simp
  have d: "ET_trend example_tm four_and_three ''Ann Lee'' =
       \<lparr>driver = ''Ann L. '', carNo = ''7'', val = - (2 / 5), date = None, opponent = None,
        nraces = None, improvementPct = Some (400 / 79)\<rparr>"
    by code_simp
  have e: "MPH_trend example_tm four_and_three ''Ann Lee'' =
       \<lparr>driver = ''Ann L. '', carNo = ''7'', val = 2, date = None, opponent = None,
        nraces = None, improvementPct = Some (400 / 181)\<rparr>"
    by code_simp
  note T = improvement_rankings [OF h, of example_tm]
  from T obtain ds where ds: "distinct ds"
    and m: "\<forall>d. d \<in> set ds \<longleftrightarrow> 4 \<le> length (metric_runs ET8 four_and_three d)"
    and R: "improvementData example_tm four_and_three
              = Inr (take 10 (sort_key val (map (ET_trend example_tm four_and_three) ds)))"
    by blast
  from T obtain ds' where ds': "distinct ds'"
    and m': "\<forall>d. d \<in> set ds' \<longleftrightarrow> 4 \<le> length (metric_runs MPH8 four_and_three d)"
    and R': "mphImprovementData example_tm four_and_three
              = Inr (take 10 (sort_key (\<lambda>e. - val e)
                                (map (MPH_trend example_tm four_and_three) ds')))"
    by blast
  from T have p: "rounds_numbered four_and_three \<longrightarrow>
            (\<exists>st. processStatistics example_tm four_and_three = Inr st
                 \<and> improvementData example_tm four_and_three = Inr (st_improvementRanking st)
                 \<and> mphImprovementData example_tm four_and_three
                     = Inr (st_mphImprovementRanking st))"
    by blast
  from m have "''Ann Lee'' \<in> set ds \<longleftrightarrow> 4 \<le> length (metric_runs ET8 four_and_three ''Ann Lee'')"
    by (rule spec)
  with a have ann: "''Ann Lee'' \<in> set ds" by simp
  from m have "''Bob Ray'' \<in> set ds \<longleftrightarrow> 4 \<le> length (metric_runs ET8 four_and_three ''Bob Ray'')"
    by (rule spec)
  with b have bob: "''Bob Ray'' \<notin> set ds" by simp
  from m' have "''Ann Lee'' \<in> set ds'
      \<longleftrightarrow> 4 \<le> length (metric_runs MPH8 four_and_three ''Ann Lee'')"
    by (rule spec)
  with a' have ann': "''Ann Lee'' \<in> set ds'" by simp
  from ds ann bob R have q: "\<exists>ds. distinct ds \<and> ''Ann Lee'' \<in> set ds \<and> ''Bob Ray'' \<notin> set ds
          \<and> improvementData example_tm four_and_three
              = Inr (take 10 (sort_key val (map (ET_trend example_tm four_and_three) ds)))"
    by blast
  from ds' ann' R' have q': "\<exists>ds. distinct ds \<and> ''Ann Lee'' \<in> set ds
          \<and> mphImprovementData example_tm four_and_three
              = Inr (take 10 (sort_key (\<lambda>e. - val e)
                                (map (MPH_trend example_tm four_and_three) ds)))"
    by blast
  from p n have "\<exists>st. processStatistics example_tm four_and_three = Inr st
                 \<and> improvementData example_tm four_and_three = Inr (st_improvementRanking st)
                 \<and> mphImprovementData example_tm four_and_three
                     = Inr (st_mphImprovementRanking st)"
    by (rule mp)
  then have r: "\<exists>st. processStatistics example_tm four_and_three = Inr st
          \<and> st_improvementRanking st = [ET_trend example_tm four_and_three ''Ann Lee'']"
    unfolding c by auto
  show ?thesis
    by (rule conjI [OF h conjI [OF n conjI [OF a conjI [OF b conjI [OF q conjI [OF q'
          conjI [OF c conjI [OF d conjI [OF e r]]]]]]]]])
qed

section \<open>Leaderboards: length, order and ties\<close>

lemma ranked_top_sort_key: "ranked_top k f src (take k (sort_key f src))"
  unfolding ranked_top_def
proof (intro conjI allI)
  show "length (take k (sort_key f src)) \<le> k" by simp
  show "sorted (map f (take k (sort_key f src)))"
    unfolding take_map [symmetric] by (rule sorted_wrt_take) (rule sorted_sort_key)
  fix v
  have "prefix (filter (\<lambda>x. f x = v) (take k (sort_key f src)))
               (filter (\<lambda>x. f x = v) (sort_key f src))"
    by (rule filter_mono_prefix) (rule take_is_prefix)
  then show "prefix (filter (\<lambda>x. f x = v) (take k (sort_key f src))) (filter (\<lambda>x. f x = v) src)"
    by (simp only: sort_key_stable)
qed

lemma ranked_top_asc: "ranked_top k f src (take k (js_sort (\<lambda>a b. f a - f b) src))"
  unfolding js_sort_asc by (rule ranked_top_sort_key)

lemma ranked_top_desc: "ranked_top k (\<lambda>x. - f x) src (take k (js_sort (\<lambda>a b. f b - f a) src))"
  unfolding js_sort_desc by (rule ranked_top_sort_key)

lemma ranked_top_map:
  assumes "ranked_top k h src out" and "\<And>x. f (g x) = h x"
  shows "ranked_top k f (map g src) (map g out)"
  unfolding ranked_top_def
proof (intro conjI allI)
  from assms(1) show "length (map g out) \<le> k" by (simp add: ranked_top_def)
  from assms show "sorted (map f (map g out))" by (simp add: ranked_top_def comp_def)
  fix v
  from assms(1) have "prefix (filter (\<lambda>x. h x = v) out) (filter (\<lambda>x. h x = v) src)"
    by (simp add: ranked_top_def)
  then have "prefix (map g (filter (\<lambda>x. h x = v) out)) (map g (filter (\<lambda>x. h x = v) src))"
    by (rule map_mono_prefix)
  then show "prefix (filter (\<lambda>x. f x = v) (map g out)) (filter (\<lambda>x. f x = v) (map g src))"
    by (simp add: filter_map comp_def assms(2))
qed

lemma etLeaders_ranked:
  "ranked_top 10 val (map (record_entry ET8) (filter (\<lambda>race. present (ET8 race)) data))
     (etLeaders data)"
  unfolding etLeaders_def
  by (rule ranked_top_map [OF ranked_top_asc]) (simp add: record_entry_def)

lemma speedLeaders_ranked:
  "ranked_top 10 (\<lambda>e. - val e) (map (record_entry MPH8) (filter (\<lambda>race. present (MPH8 race)) data))
     (speedLeaders data)"
  unfolding speedLeaders_def
  by (rule ranked_top_map [OF ranked_top_desc]) (simp add: record_entry_def)

lemma reactionLeaders_ranked:
  "ranked_top 10 val
     (map (record_entry Reaction)
        (filter (\<lambda>race. truthy (Reaction race) \<and> Reaction race > 0.001) data))
     (reactionLeaders data)"
  unfolding reactionLeaders_def
  by (rule ranked_top_map [OF ranked_top_asc]) (simp add: record_entry_def)

lemma sixtyFootLeaders_ranked:
  "ranked_top 10 val (map (record_entry ft60) (filter (\<lambda>race. present (ft60 race)) data))
     (sixtyFootLeaders data)"
  unfolding sixtyFootLeaders_def
  by (rule ranked_top_map [OF ranked_top_asc]) (simp add: record_entry_def)

lemma winsLeaderboard_ranked:
  "ranked_top 10 (\<lambda>e. - val e) (map wins_entry (object_values (winsByDriver data)))
     (winsLeaderboard data)"
  unfolding winsLeaderboard_def
  by (rule ranked_top_map [OF ranked_top_desc]) (simp add: wins_entry_def)

lemma winRateLeaderboard_ranked:
  "ranked_top 10 (\<lambda>e. - val e)
     (map winRate_entry
        (filter (\<lambda>stats. dt_races stats \<ge> 3) (object_values (stats_driverStats data))))
     (winRateLeaderboard data)"
  unfolding winRateLeaderboard_def by (rule ranked_top_desc)

lemma winRateData_ranked:
  "ranked_top 6 (\<lambda>p. - snd p) (map winRate_point (dash_driverStats data)) (winRateData data)"
  unfolding winRateData_def by (rule ranked_top_desc)

lemma avgReactions_ranked:
  "ranked_top 6 snd (map avgReaction_point (reactionsByDriver data)) (avgReactions data)"
  unfolding avgReactions_def by (rule ranked_top_asc)

lemma avgSpeeds_ranked:
  "ranked_top 6 (\<lambda>p. - snd p) (map avgSpeed_point (speedsByDriver data)) (avgSpeeds data)"
  unfolding avgSpeeds_def by (rule ranked_top_desc)

lemma first_seen_snoc:
  "first_seen (xs @ [x]) = (if x \<in> set xs then first_seen xs else first_seen xs @ [x])"
  by (simp add: first_seen_def)

lemma set_first_seen: "set (first_seen xs) = set xs"
  by (simp add: first_seen_def)

lemma keys_grouped:
  "map fst (foldl (\<lambda>acc r. upsert (key r) (init r) (step r) acc) [] data)
   = first_seen (map key data)"
proof (induction data rule: rev_induct)
  case Nil
  show ?case by (simp add: first_seen_def)
next
  case (snoc r data)
  have "has_key (key r) (foldl (\<lambda>acc r. upsert (key r) (init r) (step r) acc) [] data)
        \<longleftrightarrow> key r \<in> set (map key data)"
    unfolding has_key_def snoc.IH set_first_seen ..
  then show ?case
    by (simp add: keys_upsert snoc.IH first_seen_snoc)
qed

lemma object_values_plain:
  assumes "list_all (\<lambda>k. array_index k = None) (map fst acc)"
  shows "object_values acc = map snd acc"
proof -
  from assms have "\<forall>kv \<in> set acc. array_index (fst kv) = None"
    by (simp add: list_all_iff)
  then have "filter (\<lambda>kv. array_index (fst kv) \<noteq> None) acc = []"
    and "filter (\<lambda>kv. array_index (fst kv) = None) acc = acc"
    by (simp_all add: filter_empty_conv filter_id_conv)
  then show ?thesis
    by (simp add: object_values_def object_entries_def del: not_None_eq)
qed

lemma plain_keys:
  assumes "list_all (\<lambda>r. array_index (Driver r) = None) data"
  shows "list_all (\<lambda>k. array_index k = None) (first_seen (map Driver (filter P data)))"
  using assms by (auto simp: list_all_iff set_first_seen)

lemma dash_driverStats_keys: "map fst (dash_driverStats data) = first_seen (map Driver data)"
  unfolding dash_driverStats_def by (rule keys_grouped)

lemma values_by_driver_keys:
  "map fst (values_by_driver f data) = first_seen (map Driver (filter (\<lambda>r. present (f r)) data))"
  unfolding values_by_driver_def foldl_filter by (rule keys_grouped)

lemma winsByDriver_keys:
  assumes "own_names data"
  shows "map fst (winsByDriver data)
           = first_seen (map Driver (filter (\<lambda>r. WinLoss r = ''Win'') data))"
proof -
  from assms have "own_names (filter (\<lambda>r. WinLoss r = ''Win'') data)"
    by (simp add: own_names_def list_all_iff)
  then show ?thesis
    unfolding winsByDriver_def foldl_filter foldl_obj_update
    by (simp only: own_names_filter keys_grouped)
qed

lemma stats_driverStats_keys:
  assumes "own_names data"
  shows "map fst (stats_driverStats data) = first_seen (map Driver data)"
  unfolding stats_driverStats_own [OF assms] by (rule keys_grouped)

lemma driverETStats_keys:
  assumes "driverETStats data = Inr acc" and "own_names data"
  shows "map fst acc = first_seen (map Driver (filter (\<lambda>r. present (ET8 r)) data))"
proof -
  from assms have acc: "acc = foldl (\<lambda>acc race.
        upsert (Driver race) \<lparr>de_driver = Driver race, de_carNo = CarNo race, etTimes = []\<rparr>
          (\<lambda>e. e\<lparr>etTimes := etTimes e @ [ET8 race]\<rparr>) acc)
       [] (filter (\<lambda>race. present (ET8 race)) data)"
    by (simp add: driverETStats_own)
  show ?thesis unfolding acc by (rule keys_grouped)
qed

lemma progress_of_keys:
  assumes "progress_of f data = Inr acc" and "own_names data"
  shows "map fst acc = first_seen (map Driver (filter (\<lambda>r. present (f r)) data))"
proof -
  from assms have acc: "acc = foldl (\<lambda>acc race.
        upsert (Driver race) \<lparr>dr_driver = Driver race, dr_carNo = CarNo race, runs = []\<rparr>
               (\<lambda>e. e\<lparr>runs := runs e @ [(Date race, f race)]\<rparr>) acc) []
         (filter (\<lambda>r. \<not> (\<not> truthy (f r) \<or> f r \<le> 0)) data)"
    by (simp add: progress_of_own)
  have "(\<lambda>r. \<not> (\<not> truthy (f r) \<or> f r \<le> 0)) = (\<lambda>r. present (f r))"
    by (auto simp: present_def)
  then show ?thesis unfolding acc by (simp add: keys_grouped)
qed

lemma first_seen_plain:
  assumes "list_all (\<lambda>r. array_index (Driver r) = None) data"
    and "map fst acc = first_seen (map Driver (filter P data))"
  shows "object_values acc = map snd acc"
  by (rule object_values_plain) (simp only: assms(2) plain_keys [OF assms(1)])

lemma first_seen_plain_all:
  assumes "list_all (\<lambda>r. array_index (Driver r) = None) data"
    and "map fst acc = first_seen (map Driver data)"
  shows "object_values acc = map snd acc"
  using first_seen_plain [OF assms(1), of acc "\<lambda>r. True"] assms(2) by simp

text \<open>The driver rankings of the statistics view that are built from lists of samples.\<close>

lemma consistency_ranked:
  assumes "own_names data"
  shows "\<exists>acc L. driverETStats data = Inr acc \<and> consistencyLeaderboard data = Inr L
       \<and> ranked_top 6 val
           (map consistency_entry
              (filter (\<lambda>stats. length (etTimes stats) \<ge> 3) (object_values acc))) L
       \<and> map fst acc = first_seen (map Driver (filter (\<lambda>r. present (ET8 r)) data))
       \<and> (list_all (\<lambda>r. array_index (Driver r) = None) data \<longrightarrow> object_values acc = map snd acc)"
proof -
  from assms obtain acc where acc: "driverETStats data = Inr acc"
    by (simp add: driverETStats_own)
  have "consistencyLeaderboard data =
      Inr (take 6 (js_sort (\<lambda>a b. val a - val b)
            (map consistency_entry
               (filter (\<lambda>stats. length (etTimes stats) \<ge> 3) (object_values acc)))))"
    by (simp add: consistencyLeaderboard_def acc)
  moreover have "list_all (\<lambda>r. array_index (Driver r) = None) data \<longrightarrow> object_values acc = map snd acc"
    using first_seen_plain [OF _ driverETStats_keys [OF acc assms]] by blast
  ultimately show ?thesis
    using acc driverETStats_keys [OF acc assms] ranked_top_asc by blast
qed

lemma improvement_ranked:
  assumes "own_names data"
  shows "\<exists>acc L. driverProgress data = Inr acc \<and> improvementData tm data = Inr L
       \<and> ranked_top 10 val
           (map (improvement_entry tm)
              (filter (\<lambda>d. length (runs d) \<ge> 4) (object_values acc))) L
       \<and> map fst acc = first_seen (map Driver (filter (\<lambda>r. present (ET8 r)) data))
       \<and> (list_all (\<lambda>r. array_index (Driver r) = None) data \<longrightarrow> object_values acc = map snd acc)"
proof -
  from assms obtain acc where acc: "progress_of ET8 data = Inr acc"
    by (simp add: progress_of_own)
  have "improvementData tm data =
      Inr (take 10 (js_sort (\<lambda>a b. val a - val b)
            (map (improvement_entry tm)
               (filter (\<lambda>d. length (runs d) \<ge> 4) (object_values acc)))))"
    by (simp add: improvementData_def driverProgress_def acc)
  moreover have "list_all (\<lambda>r. array_index (Driver r) = None) data \<longrightarrow> object_values acc = map snd acc"
    using first_seen_plain [OF _ progress_of_keys [OF acc assms]] by blast
  ultimately show ?thesis
    unfolding driverProgress_def
    using acc progress_of_keys [OF acc assms] ranked_top_asc by blast
qed

lemma mphImprovement_ranked:
  assumes "own_names data"
  shows "\<exists>acc L. driverMphProgress data = Inr acc \<and> mphImprovementData tm data = Inr L
       \<and> ranked_top 10 (\<lambda>e. - val e)
           (map (mph_improvement_entry tm)
              (filter (\<lambda>d. length (runs d) \<ge> 4) (object_values acc))) L
       \<and> map fst acc = first_seen (map Driver (filter (\<lambda>r. present (MPH8 r)) data))
       \<and> (list_all (\<lambda>r. array_index (Driver r) = None) data \<longrightarrow> object_values acc = map snd acc)"
proof -
  from assms obtain acc where acc: "progress_of MPH8 data = Inr acc"
    by (simp add: progress_of_own)
  have "mphImprovementData tm data =
      Inr (take 10 (js_sort (\<lambda>a b. val b - val a)
            (map (mph_improvement_entry tm)
               (filter (\<lambda>d. length (runs d) \<ge> 4) (object_values acc)))))"
    by (simp add: mphImprovementData_def driverMphProgress_def acc)
  moreover have "list_all (\<lambda>r. array_index (Driver r) = None) data \<longrightarrow> object_values acc = map snd acc"
    using first_seen_plain [OF _ progress_of_keys [OF acc assms]] by blast
  ultimately show ?thesis
    unfolding driverMphProgress_def
    using acc progress_of_keys [OF acc assms] ranked_top_desc by blast
qed

text \<open>
  Claim C5, as stated: a driver-aggregate leaderboard has at most six entries. The
  most-wins leaderboard of the statistics view is cut at ten: with eleven winning
  drivers it has ten entries.
\<close>

theorem winsLeaderboard_longer_than_six:
  "length (winsLeaderboard eleven_drivers) = 10 \<and> \<not> length (winsLeaderboard eleven_drivers) \<le> 6"
  by code_simp

text \<open>
  Claim C5, amended. Every leaderboard has at most its own number of entries: ten for
  the four record-level leaderboards and for the most-wins, win-rate and improvement
  rankings of the statistics view, six for the consistency ranking and for the three
  driver rankings of the dashboard. Each is sorted in its direction (ascending for times,
  standard deviations and ET deltas, descending for speeds, wins, rates and MPH deltas),
  and entries with equal values keep the order of the entries handed to the sort: for a
  record-level leaderboard the input order of the qualifying records, for a driver
  ranking the order in which the accumulator lists the drivers. A \<open>Map\<close> of the
  dashboard lists them in the order of their first qualifying record. For the objects of
  the statistics view this is stated for data in which no driver has the name of an
  inherited property, as are the consistency and improvement rankings: then these are
  computed, an object holds the drivers in the order of their first qualifying record,
  and \<open>Object.values\<close> keeps that order as long as no driver name is an array index.
  When, besides, no round number is negative, these are the leaderboards the view shows.
\<close>

theorem leaderboards_ranked:
  "ranked_top 10 val (map (record_entry ET8) (filter (\<lambda>race. present (ET8 race)) data))
     (etLeaders data)
   \<and> ranked_top 10 (\<lambda>e. - val e)
       (map (record_entry MPH8) (filter (\<lambda>race. present (MPH8 race)) data)) (speedLeaders data)
   \<and> ranked_top 10 val
       (map (record_entry Reaction)
          (filter (\<lambda>race. truthy (Reaction race) \<and> Reaction race > 0.001) data))
       (reactionLeaders data)
   \<and> ranked_top 10 val (map (record_entry ft60) (filter (\<lambda>race. present (ft60 race)) data))
       (sixtyFootLeaders data)
   \<and> ranked_top 10 (\<lambda>e. - val e) (map wins_entry (object_values (winsByDriver data)))
       (winsLeaderboard data)
   \<and> ranked_top 10 (\<lambda>e. - val e)
       (map winRate_entry
          (filter (\<lambda>stats. dt_races stats \<ge> 3) (object_values (stats_driverStats data))))
       (winRateLeaderboard data)
   \<and> ranked_top 6 (\<lambda>p. - snd p) (map winRate_point (dash_driverStats data)) (winRateData data)
   \<and> ranked_top 6 snd (map avgReaction_point (reactionsByDriver data)) (avgReactions data)
   \<and> ranked_top 6 (\<lambda>p. - snd p) (map avgSpeed_point (speedsByDriver data)) (avgSpeeds data)
   \<and> map fst (dash_driverStats data) = first_seen (map Driver data)
   \<and> map fst (reactionsByDriver data)
       = first_seen (map Driver (filter (\<lambda>r. present (Reaction r)) data))
   \<and> map fst (speedsByDriver data) = first_seen (map Driver (filter (\<lambda>r. present (MPH8 r)) data))
   \<and> (own_names data \<longrightarrow>
        map fst (winsByDriver data)
          = first_seen (map Driver (filter (\<lambda>r. WinLoss r = ''Win'') data))
      \<and> map fst (stats_driverStats data) = first_seen (map Driver data)
      \<and> (list_all (\<lambda>r. array_index (Driver r) = None) data \<longrightarrow>
           object_values (winsByDriver data) = map snd (winsByDriver data)
         \<and> object_values (stats_driverStats data) = map snd (stats_driverStats data))
      \<and> (\<exists>acc L. driverETStats data = Inr acc \<and> consistencyLeaderboard data = Inr L
           \<and> ranked_top 6 val
               (map consistency_entry
                  (filter (\<lambda>stats. length (etTimes stats) \<ge> 3) (object_values acc))) L
           \<and> map fst acc = first_seen (map Driver (filter (\<lambda>r. present (ET8 r)) data))
           \<and> (list_all (\<lambda>r. array_index (Driver r) = None) data \<longrightarrow>
                object_values acc = map snd acc))
      \<and> (\<exists>acc L. driverProgress data = Inr acc \<and> improvementData tm data = Inr L
           \<and> ranked_top 10 val
               (map (improvement_entry tm)
                  (filter (\<lambda>d. length (runs d) \<ge> 4) (object_values acc))) L
           \<and> map fst acc = first_seen (map Driver (filter (\<lambda>r. present (ET8 r)) data))
           \<and> (list_all (\<lambda>r. array_index (Driver r) = None) data \<longrightarrow>
                object_values acc = map snd acc))
      \<and> (\<exists>acc L. driverMphProgress data = Inr acc \<and> mphImprovementData tm data = Inr L
           \<and> ranked_top 10 (\<lambda>e. - val e)
               (map (mph_improvement_entry tm)
                  (filter (\<lambda>d. length (runs d) \<ge> 4) (object_values acc))) L
           \<and> map fst acc = first_seen (map Driver (filter (\<lambda>r. present (MPH8 r)) data))
           \<and> (list_all (\<lambda>r. array_index (Driver r) = None) data \<longrightarrow>
                object_values acc = map snd acc))
      \<and> (rounds_numbered data \<longrightarrow>
           (\<exists>st. processStatistics tm data = Inr st
                \<and> st_bestET st = etLeaders data \<and> st_topSpeed st = speedLeaders data
                \<and> st_bestReaction st = reactionLeaders data
                \<and> st_best60ft st = sixtyFootLeaders data
                \<and> st_mostWins st = winsLeaderboard data
                \<and> st_bestWinRate st = winRateLeaderboard data
                \<and> consistencyLeaderboard data = Inr (st_consistencyRanking st)
                \<and> improvementData tm data = Inr (st_improvementRanking st)
                \<and> mphImprovementData tm data = Inr (st_mphImprovementRanking st))))"
proof -
  have v1: "map fst (reactionsByDriver data)
              = first_seen (map Driver (filter (\<lambda>r. present (Reaction r)) data))"
    unfolding reactionsByDriver_def by (rule values_by_driver_keys)
  have v2: "map fst (speedsByDriver data)
              = first_seen (map Driver (filter (\<lambda>r. present (MPH8 r)) data))"
    unfolding speedsByDriver_def by (rule values_by_driver_keys)
  have own: "own_names data \<longrightarrow>
        map fst (winsByDriver data)
          = first_seen (map Driver (filter (\<lambda>r. WinLoss r = ''Win'') data))
      \<and> map fst (stats_driverStats data) = first_seen (map Driver data)
      \<and> (list_all (\<lambda>r. array_index (Driver r) = None) data \<longrightarrow>
           object_values (winsByDriver data) = map snd (winsByDriver data)
         \<and> object_values (stats_driverStats data) = map snd (stats_driverStats data))
      \<and> (\<exists>acc L. driverETStats data = Inr acc \<and> consistencyLeaderboard data = Inr L
           \<and> ranked_top 6 val
               (map consistency_entry
                  (filter (\<lambda>stats. length (etTimes stats) \<ge> 3) (object_values acc))) L
           \<and> map fst acc = first_seen (map Driver (filter (\<lambda>r. present (ET8 r)) data))
           \<and> (list_all (\<lambda>r. array_index (Driver r) = None) data \<longrightarrow>
                object_values acc = map snd acc))
      \<and> (\<exists>acc L. driverProgress data = Inr acc \<and> improvementData tm data = Inr L
           \<and> ranked_top 10 val
               (map (improvement_entry tm)
                  (filter (\<lambda>d. length (runs d) \<ge> 4) (object_values acc))) L
           \<and> map fst acc = first_seen (map Driver (filter (\<lambda>r. present (ET8 r)) data))
           \<and> (list_all (\<lambda>r. array_index (Driver r) = None) data \<longrightarrow>
                object_values acc = map snd acc))
      \<and> (\<exists>acc L. driverMphProgress data = Inr acc \<and> mphImprovementData tm data = Inr L
           \<and> ranked_top 10 (\<lambda>e. - val e)
               (map (mph_improvement_entry tm)
                  (filter (\<lambda>d. length (runs d) \<ge> 4) (object_values acc))) L
           \<and> map fst acc = first_seen (map Driver (filter (\<lambda>r. present (MPH8 r)) data))
           \<and> (list_all (\<lambda>r. array_index (Driver r) = None) data \<longrightarrow>
                object_values acc = map snd acc))
      \<and> (rounds_numbered data \<longrightarrow>
           (\<exists>st. processStatistics tm data = Inr st
                \<and> st_bestET st = etLeaders data \<and> st_topSpeed st = speedLeaders data
                \<and> st_bestReaction st = reactionLeaders data
                \<and> st_best60ft st = sixtyFootLeaders data
                \<and> st_mostWins st = winsLeaderboard data
                \<and> st_bestWinRate st = winRateLeaderboard data
                \<and> consistencyLeaderboard data = Inr (st_consistencyRanking st)
                \<and> improvementData tm data = Inr (st_improvementRanking st)
                \<and> mphImprovementData tm data = Inr (st_mphImprovementRanking st)))"
  proof
    assume o: "own_names data"
    have w: "list_all (\<lambda>r. array_index (Driver r) = None) data \<longrightarrow>
           object_values (winsByDriver data) = map snd (winsByDriver data)
         \<and> object_values (stats_driverStats data) = map snd (stats_driverStats data)"
      using first_seen_plain [OF _ winsByDriver_keys [OF o]]
        first_seen_plain_all [OF _ stats_driverStats_keys [OF o]]
      by blast
    have p: "rounds_numbered data \<longrightarrow>
           (\<exists>st. processStatistics tm data = Inr st
                \<and> st_bestET st = etLeaders data \<and> st_topSpeed st = speedLeaders data
                \<and> st_bestReaction st = reactionLeaders data
                \<and> st_best60ft st = sixtyFootLeaders data
                \<and> st_mostWins st = winsLeaderboard data
                \<and> st_bestWinRate st = winRateLeaderboard data
                \<and> consistencyLeaderboard data = Inr (st_consistencyRanking st)
                \<and> improvementData tm data = Inr (st_improvementRanking st)
                \<and> mphImprovementData tm data = Inr (st_mphImprovementRanking st))"
      using processStatistics_returns [OF o, of tm] by blast
    show "map fst (winsByDriver data)
          = first_seen (map Driver (filter (\<lambda>r. WinLoss r = ''Win'') data))
      \<and> map fst (stats_driverStats data) = first_seen (map Driver data)
      \<and> (list_all (\<lambda>r. array_index (Driver r) = None) data \<longrightarrow>
           object_values (winsByDriver data) = map snd (winsByDriver data)
         \<and> object_values (stats_driverStats data) = map snd (stats_driverStats data))
      \<and> (\<exists>acc L. driverETStats data = Inr acc \<and> consistencyLeaderboard data = Inr L
           \<and> ranked_top 6 val
               (map consistency_entry
                  (filter (\<lambda>stats. length (etTimes stats) \<ge> 3) (object_values acc))) L
           \<and> map fst acc = first_seen (map Driver (filter (\<lambda>r. present (ET8 r)) data))
           \<and> (list_all (\<lambda>r. array_index (Driver r) = None) data \<longrightarrow>
                object_values acc = map snd acc))
      \<and> (\<exists>acc L. driverProgress data = Inr acc \<and> improvementData tm data = Inr L
           \<and> ranked_top 10 val
               (map (improvement_entry tm)
                  (filter (\<lambda>d. length (runs d) \<ge> 4) (object_values acc))) L
           \<and> map fst acc = first_seen (map Driver (filter (\<lambda>r. present (ET8 r)) data))
           \<and> (list_all (\<lambda>r. array_index (Driver r) = None) data \<longrightarrow>
                object_values acc = map snd acc))
      \<and> (\<exists>acc L. driverMphProgress data = Inr acc \<and> mphImprovementData tm data = Inr L
           \<and> ranked_top 10 (\<lambda>e. - val e)
               (map (mph_improvement_entry tm)
                  (filter (\<lambda>d. length (runs d) \<ge> 4) (object_values acc))) L
           \<and> map fst acc = first_seen (map Driver (filter (\<lambda>r. present (MPH8 r)) data))
           \<and> (list_all (\<lambda>r. array_index (Driver r) = None) data \<longrightarrow>
                object_values acc = map snd acc))
      \<and> (rounds_numbered data \<longrightarrow>
           (\<exists>st. processStatistics tm data = Inr st
                \<and> st_bestET st = etLeaders data \<and> st_topSpeed st = speedLeaders data
                \<and> st_bestReaction st = reactionLeaders data
                \<and> st_best60ft st = sixtyFootLeaders data
                \<and> st_mostWins st = winsLeaderboard data
                \<and> st_bestWinRate st = winRateLeaderboard data
                \<and> consistencyLeaderboard data = Inr (st_consistencyRanking st)
                \<and> improvementData tm data = Inr (st_improvementRanking st)
                \<and> mphImprovementData tm data = Inr (st_mphImprovementRanking st)))"
      by (intro conjI winsByDriver_keys [OF o] stats_driverStats_keys [OF o] w
          consistency_ranked [OF o] improvement_ranked [OF o] mphImprovement_ranked [OF o] p)
  qed
  show ?thesis
    by (intro conjI etLeaders_ranked speedLeaders_ranked reactionLeaders_ranked
        sixtyFootLeaders_ranked winsLeaderboard_ranked winRateLeaderboard_ranked
        winRateData_ranked avgReactions_ranked avgSpeeds_ranked dash_driverStats_keys v1 v2 own)
qed

theorem leaderboards_ranked_witness:
  "own_names three_and_two \<and> rounds_numbered three_and_two
   \<and> list_all (\<lambda>r. array_index (Driver r) = None) three_and_two
   \<and> ranked_top 10 val
       (map (record_entry ET8) (filter (\<lambda>race. present (ET8 race)) three_and_two))
       (etLeaders three_and_two)
   \<and> map val (etLeaders three_and_two) = [15 / 2, 39 / 5, 8, 9, 9]
   \<and> map date (etLeaders three_and_two)
       = [Some ''2024-03-14'', Some ''2024-03-21'', Some ''2024-03-14'', Some ''2024-03-14'',
          Some ''2024-03-21'']
   \<and> ranked_top 10 (\<lambda>e. - val e) (map wins_entry (object_values (winsByDriver three_and_two)))
       (winsLeaderboard three_and_two)
   \<and> object_values (winsByDriver three_and_two) = map snd (winsByDriver three_and_two)
   \<and> map fst (winsByDriver three_and_two) = [''Ann Lee'', ''Bob Ray'']
   \<and> (\<exists>st. processStatistics example_tm three_and_two = Inr st
          \<and> st_bestET st = etLeaders three_and_two
          \<and> st_mostWins st = winsLeaderboard three_and_two)"
proof -
  have o: "own_names three_and_two" by code_simp
  have n: "rounds_numbered three_and_two" by code_simp
  have h: "list_all (\<lambda>r. array_index (Driver r) = None) three_and_two" by code_simp
  have v: "map val (etLeaders three_and_two) = [15 / 2, 39 / 5, 8, 9, 9]" by code_simp
  have d: "map date (etLeaders three_and_two)
       = [Some ''2024-03-14'', Some ''2024-03-21'', Some ''2024-03-14'', Some ''2024-03-14'',
          Some ''2024-03-21'']"
    by code_simp
  have k: "first_seen (map Driver (filter (\<lambda>r. WinLoss r = ''Win'') three_and_two))
             = [''Ann Lee'', ''Bob Ray'']"
    by code_simp
  note L = leaderboards_ranked [of three_and_two example_tm]
  from L have a: "ranked_top 10 val
       (map (record_entry ET8) (filter (\<lambda>race. present (ET8 race)) three_and_two))
       (etLeaders three_and_two)"
    by (rule conjunct1)
  from L have b: "ranked_top 10 (\<lambda>e. - val e)
       (map wins_entry (object_values (winsByDriver three_and_two)))
       (winsLeaderboard three_and_two)"
    by blast
  from L o h have c: "object_values (winsByDriver three_and_two) = map snd (winsByDriver three_and_two)"
    by blast
  from L o have "map fst (winsByDriver three_and_two)
       = first_seen (map Driver (filter (\<lambda>r. WinLoss r = ''Win'') three_and_two))"
    by blast
  with k have e: "map fst (winsByDriver three_and_two) = [''Ann Lee'', ''Bob Ray'']" by simp
  from L o n have p: "\<exists>st. processStatistics example_tm three_and_two = Inr st
          \<and> st_bestET st = etLeaders three_and_two
          \<and> st_mostWins st = winsLeaderboard three_and_two"
    by blast
  show ?thesis
    by (rule conjI [OF o conjI [OF n conjI [OF h conjI [OF a conjI [OF v conjI [OF d
          conjI [OF b conjI [OF c conjI [OF e p]]]]]]]]])
qed

end
